theory Spec2Isabelle
  imports Complex_Main "HOL-Library.AList"
begin

section \<open>The ulogme database\<close>

text \<open>
  The backend module \<^verbatim>\<open>backend-lib/ulogme-db.ts\<close> queries a DuckDB file with the tables
  \<^verbatim>\<open>window_events\<close>, \<^verbatim>\<open>key_events\<close>, \<^verbatim>\<open>notes\<close> and \<^verbatim>\<open>daily_blog\<close>. A table is the list
  of its rows in insertion order. The \<^verbatim>\<open>settings\<close> table, which none of the functions
  below reads or writes, is left out.

  An instant is a whole number of milliseconds since the epoch, the resolution of
  JavaScript's \<^verbatim>\<open>Date.getTime()\<close>; a logical date is a day number. In the reading
  functions and in the interfaces, the strings that the TypeScript code passes around for
  both are represented by the instant or day they denote; the write routes keep the
  strings of the request, and the database driver casts them. JavaScript numbers are
  exact reals here.
\<close>

type_synonym timestamp = int
type_synonym date = int

record window_events_row =
  w_timestamp :: timestamp
  w_app_name :: string
  w_window_title :: "string option"
  w_browser_url :: "string option"
  w_logical_date :: date

record key_events_row =
  k_timestamp :: timestamp
  k_key_count :: int
  k_logical_date :: date

record notes_row =
  n_timestamp :: timestamp
  n_content :: string
  n_logical_date :: date

record daily_blog_row =
  b_logical_date :: date
  b_content :: "string option"

record database =
  window_events :: "window_events_row list"
  key_events :: "key_events_row list"
  notes_table :: "notes_row list"
  daily_blog :: "daily_blog_row list"

text \<open>
  An error thrown by the database: a write on a read-only connection, or a statement
  that fails (a parameter that cannot be bound or cast, a violated constraint, a row
  count that is out of range).
\<close>

datatype db_error = ReadOnlyError | StatementError

subsection \<open>The interfaces exported by the module\<close>

record WindowEvent =
  timestamp :: timestamp
  app_name :: string
  window_title :: "string option"
  browser_url :: "string option"

record KeyEvent =
  key_timestamp :: timestamp
  key_count :: int

record Note =
  note_timestamp :: timestamp
  content :: string

record DayData =
  day_logical_date :: date
  day_window_events :: "WindowEvent list"
  day_key_events :: "KeyEvent list"
  day_notes :: "Note list"
  blog :: "string option"

record DailySummary =
  logical_date :: date
  total_keys :: int
  unique_apps :: nat

record AppUsage =
  usage_app_name :: string
  duration_seconds :: real
  event_count :: nat

section \<open>getOverview\<close>

text \<open>
  The optional bounds \<^verbatim>\<open>fromDate\<close> and \<^verbatim>\<open>toDate\<close> are tested for truthiness, so an
  absent bound and the empty string both give \<open>None\<close>. The WHERE clause keeps the rows
  of \<^verbatim>\<open>window_events\<close> whose logical date lies within the bounds that are present.
\<close>

definition in_range :: "date option \<Rightarrow> date option \<Rightarrow> date \<Rightarrow> bool" where
  "in_range fromDate toDate d =
     ((case fromDate of None \<Rightarrow> True | Some f \<Rightarrow> f \<le> d) \<and>
      (case toDate of None \<Rightarrow> True | Some t \<Rightarrow> d \<le> t))"

text \<open>
  \<^verbatim>\<open>COALESCE((SELECT SUM(key_count) FROM key_events k WHERE k.logical_date = w.logical_date), 0)\<close>:
  the sum over no rows is NULL, which COALESCE turns into 0.
\<close>

definition total_keys_of :: "database \<Rightarrow> date \<Rightarrow> int" where
  "total_keys_of db d =
     (case filter (\<lambda>k. k_logical_date k = d) (key_events db) of
        [] \<Rightarrow> 0
      | ks \<Rightarrow> sum_list (map k_key_count ks))"

text \<open>\<^verbatim>\<open>COUNT(DISTINCT w.app_name)\<close> within the group of one logical date.\<close>

definition unique_apps_of :: "window_events_row list \<Rightarrow> date \<Rightarrow> nat" where
  "unique_apps_of w d =
     length (remdups (map w_app_name (filter (\<lambda>r. w_logical_date r = d) w)))"

text \<open>
  The rows of \<^verbatim>\<open>GROUP BY w.logical_date ORDER BY w.logical_date DESC LIMIT n\<close> for a row
  count \<open>n\<close>: one group for each distinct logical date among the selected rows, the
  groups in descending date order, the first \<open>n\<close> of them.
\<close>

definition overview_rows ::
  "date option \<Rightarrow> date option \<Rightarrow> nat \<Rightarrow> database \<Rightarrow> DailySummary list" where
  "overview_rows fromDate toDate n db =
     (let w = filter (\<lambda>r. in_range fromDate toDate (w_logical_date r)) (window_events db);
          groups = rev (sort (remdups (map w_logical_date w)))
      in map (\<lambda>d. \<lparr>logical_date = d,
                    total_keys = total_keys_of db d,
                    unique_apps = unique_apps_of w d\<rparr>)
             (take n groups))"

text \<open>
  The function splices its \<^verbatim>\<open>limit\<close> into the statement text, \<^verbatim>\<open>LIMIT ${limit}\<close>. Its
  only caller passes \<^verbatim>\<open>parseInt(c.req.query("limit") || "30", 10)\<close>, an integer or NaN.
  The limit is the integer that the spliced text denotes, \<open>None\<close> when the text is not
  an integer (NaN). The database accepts a row count from 0 up to the largest 64-bit
  signed integer; for any other limit the statement fails and the function throws.
\<close>

definition getOverview ::
  "date option \<Rightarrow> date option \<Rightarrow> int option \<Rightarrow> database \<Rightarrow> db_error + DailySummary list" where
  "getOverview fromDate toDate limit db =
     (case limit of
        None \<Rightarrow> Inl StatementError
      | Some n \<Rightarrow>
          if n < 0 \<or> 2 ^ 63 \<le> n then Inl StatementError
          else Inr (overview_rows fromDate toDate (nat n) db))"

text \<open>The logical dates that have a focus event within the requested bounds.\<close>

definition qualifying_dates :: "date option \<Rightarrow> date option \<Rightarrow> database \<Rightarrow> date set" where
  "qualifying_dates fromDate toDate db =
     w_logical_date ` {r \<in> set (window_events db). in_range fromDate toDate (w_logical_date r)}"

section \<open>getAppUsageForDate\<close>

text \<open>
  The common table expression \<^verbatim>\<open>event_durations\<close>: the focus events of the logical
  date, each with \<^verbatim>\<open>LEAD(timestamp) OVER (ORDER BY timestamp)\<close>, the timestamp of the
  row that follows it in timestamp order, NULL for the last row. Rows with equal
  timestamps are kept in insertion order (SQL leaves their order open).
\<close>

record event_durations_row =
  ed_app_name :: string
  ed_timestamp :: timestamp
  ed_next_timestamp :: "timestamp option"

fun lead :: "window_events_row list \<Rightarrow> event_durations_row list" where
  "lead [] = []"
| "lead [r] =
     [\<lparr>ed_app_name = w_app_name r, ed_timestamp = w_timestamp r, ed_next_timestamp = None\<rparr>]"
| "lead (r # r' # rs) =
     \<lparr>ed_app_name = w_app_name r, ed_timestamp = w_timestamp r,
      ed_next_timestamp = Some (w_timestamp r')\<rparr> # lead (r' # rs)"

definition event_durations :: "date \<Rightarrow> database \<Rightarrow> event_durations_row list" where
  "event_durations logicalDate db =
     lead (sort_key w_timestamp (filter (\<lambda>r. w_logical_date r = logicalDate) (window_events db)))"

text \<open>
  \<^verbatim>\<open>CASE WHEN next_timestamp IS NOT NULL THEN EXTRACT(EPOCH FROM (next_timestamp - timestamp)) ELSE 0 END\<close>:
  the length of the interval in seconds.
\<close>

definition row_duration :: "event_durations_row \<Rightarrow> real" where
  "row_duration e =
     (case ed_next_timestamp e of
        Some next_timestamp \<Rightarrow> real_of_int (next_timestamp - ed_timestamp e) / 1000
      | None \<Rightarrow> 0)"

text \<open>
  \<^verbatim>\<open>GROUP BY app_name\<close> with \<^verbatim>\<open>SUM\<close> and \<^verbatim>\<open>COUNT(*)\<close>, then
  \<^verbatim>\<open>ORDER BY duration_seconds DESC\<close>. Groups with equal sums stay in the order in which
  their application first occurs (SQL leaves their order open).
\<close>

definition first_occurrences :: "'a list \<Rightarrow> 'a list" where
  "first_occurrences xs = rev (remdups (rev xs))"

definition getAppUsageForDate :: "date \<Rightarrow> database \<Rightarrow> AppUsage list" where
  "getAppUsageForDate logicalDate db =
     (let eds = event_durations logicalDate db;
          groups = map (\<lambda>a. let g = filter (\<lambda>e. ed_app_name e = a) eds
                             in \<lparr>usage_app_name = a,
                                 duration_seconds = sum_list (map row_duration g),
                                 event_count = length g\<rparr>)
                       (first_occurrences (map ed_app_name eds))
      in sort_key (\<lambda>u. - duration_seconds u) groups)"

section \<open>getDayData\<close>

text \<open>\<^verbatim>\<open>row[2] ? String(row[2]) : null\<close>: NULL and the empty string both become null.\<close>

definition truthy_or_null :: "string option \<Rightarrow> string option" where
  "truthy_or_null v = (case v of None \<Rightarrow> None | Some s \<Rightarrow> if s = [] then None else Some s)"

definition getDayData :: "date \<Rightarrow> database \<Rightarrow> DayData" where
  "getDayData logicalDate db =
     \<lparr>day_logical_date = logicalDate,
      day_window_events =
        map (\<lambda>r. \<lparr>timestamp = w_timestamp r, app_name = w_app_name r,
                   window_title = truthy_or_null (w_window_title r),
                   browser_url = truthy_or_null (w_browser_url r)\<rparr>)
            (sort_key w_timestamp
               (filter (\<lambda>r. w_logical_date r = logicalDate) (window_events db))),
      day_key_events =
        map (\<lambda>r. \<lparr>key_timestamp = k_timestamp r, key_count = k_key_count r\<rparr>)
            (sort_key k_timestamp
               (filter (\<lambda>r. k_logical_date r = logicalDate) (key_events db))),
      day_notes =
        map (\<lambda>r. \<lparr>note_timestamp = n_timestamp r, content = n_content r\<rparr>)
            (sort_key n_timestamp
               (filter (\<lambda>r. n_logical_date r = logicalDate) (notes_table db))),
      blog =
        (case filter (\<lambda>r. b_logical_date r = logicalDate) (daily_blog db) of
           [] \<Rightarrow> None
         | r # _ \<Rightarrow> truthy_or_null (b_content r))\<rparr>"

section \<open>Connections and write statements\<close>

text \<open>
  \<^verbatim>\<open>getConnection\<close> creates the DuckDB instance with \<^verbatim>\<open>access_mode: "READ_ONLY"\<close>
  and caches the connection; every function of the module, the writing ones included,
  runs its statement on that connection. DuckDB refuses a statement that modifies a
  database opened read-only. The module's second copy, under \<^verbatim>\<open>site-template/\<close>, runs
  its writing functions through \<^verbatim>\<open>withWriteConnection\<close>, which creates the instance
  without an access mode and so with write access. The database file is taken to exist
  and to open.
\<close>

datatype access_mode = READ_ONLY | READ_WRITE

record connection =
  access_mode :: access_mode

definition getConnection :: connection where
  "getConnection = \<lparr>access_mode = READ_ONLY\<rparr>"

definition withWriteConnection :: "(connection \<Rightarrow> 'a) \<Rightarrow> 'a" where
  "withWriteConnection fn = fn \<lparr>access_mode = READ_WRITE\<rparr>"

definition run_write ::
  "connection \<Rightarrow> (database \<Rightarrow> db_error + database) \<Rightarrow> database \<Rightarrow> db_error + database" where
  "run_write conn statement db =
     (case access_mode conn of
        READ_ONLY \<Rightarrow> Inl ReadOnlyError
      | READ_WRITE \<Rightarrow> statement db)"

subsection \<open>JavaScript values and statement parameters\<close>

text \<open>
  TypeScript's parameter types are erased at run time: what the routes hand to
  \<^verbatim>\<open>addNote\<close> and \<^verbatim>\<open>saveBlog\<close> are the values found in the request's JSON body.
\<close>

datatype js_value =
    JUndefined
  | JNull
  | JBool bool
  | JNumber real
  | JString string
  | JArray "js_value list"
  | JObject "(string \<times> js_value) list"

text \<open>The operand of \<^verbatim>\<open>!\<close>: the values JavaScript treats as false.\<close>

fun falsy :: "js_value \<Rightarrow> bool" where
  "falsy JUndefined = True"
| "falsy JNull = True"
| "falsy (JBool b) = (\<not> b)"
| "falsy (JNumber x) = (x = 0)"
| "falsy (JString s) = (s = [])"
| "falsy (JArray vs) = False"
| "falsy (JObject members) = False"

text \<open>
  Reading one of the keys \<^verbatim>\<open>timestamp\<close>, \<^verbatim>\<open>content\<close>, \<^verbatim>\<open>logical_date\<close> from a parsed body
  that is neither null nor undefined: an object yields the value bound to the key (the
  last binding, as \<^verbatim>\<open>JSON.parse\<close> keeps it) or undefined when the key is absent; any other
  value has no such property.
\<close>

fun property :: "js_value \<Rightarrow> string \<Rightarrow> js_value" where
  "property (JObject members) k = (case map_of (rev members) k of Some v \<Rightarrow> v | None \<Rightarrow> JUndefined)"
| "property v k = JUndefined"

text \<open>
  How DuckDB binds a JavaScript value to a statement parameter and casts it
  (\<^verbatim>\<open>?::TIMESTAMP\<close>, \<^verbatim>\<open>?::DATE\<close>, a plain \<^verbatim>\<open>?\<close> for a VARCHAR column) is a parameter
  of the model: the value is rejected, bound as NULL, or bound as a value of the column's
  type.
\<close>

datatype 'a bound = Rejected | SqlNull | Bound 'a

record driver =
  cast_timestamp :: "js_value \<Rightarrow> timestamp bound"
  cast_date :: "js_value \<Rightarrow> date bound"
  bind_varchar :: "js_value \<Rightarrow> string bound"

subsection \<open>addNote\<close>

text \<open>
  \<^verbatim>\<open>INSERT INTO notes (timestamp, content, logical_date) VALUES (...)
  ON CONFLICT (timestamp) DO UPDATE SET content = excluded.content\<close>:
  \<^verbatim>\<open>timestamp\<close> is the primary key. When a row with the timestamp exists only its content
  is replaced; otherwise the row is appended.
\<close>

definition insert_note :: "timestamp \<Rightarrow> string \<Rightarrow> date \<Rightarrow> notes_row list \<Rightarrow> notes_row list" where
  "insert_note t c d rows =
     (if t \<in> n_timestamp ` set rows
      then map (\<lambda>r. if n_timestamp r = t then r\<lparr>n_content := c\<rparr> else r) rows
      else rows @ [\<lparr>n_timestamp = t, n_content = c, n_logical_date = d\<rparr>])"

text \<open>All three columns are NOT NULL; a failing statement changes nothing.\<close>

definition insert_note_statement ::
  "driver \<Rightarrow> js_value \<Rightarrow> js_value \<Rightarrow> js_value \<Rightarrow> database \<Rightarrow> db_error + database" where
  "insert_note_statement drv timestamp' content' logicalDate db =
     (case (cast_timestamp drv timestamp', bind_varchar drv content', cast_date drv logicalDate) of
        (Bound t, Bound c, Bound d) \<Rightarrow>
          Inr (db\<lparr>notes_table := insert_note t c d (notes_table db)\<rparr>)
      | _ \<Rightarrow> Inl StatementError)"

definition addNote ::
  "driver \<Rightarrow> js_value \<Rightarrow> js_value \<Rightarrow> js_value \<Rightarrow> database \<Rightarrow> db_error + database" where
  "addNote drv timestamp' content' logicalDate db =
     (let conn = getConnection
      in run_write conn (insert_note_statement drv timestamp' content' logicalDate) db)"

text \<open>The same function in the copy of the module under \<^verbatim>\<open>site-template/\<close>.\<close>

definition addNote_withWriteConnection ::
  "driver \<Rightarrow> js_value \<Rightarrow> js_value \<Rightarrow> js_value \<Rightarrow> database \<Rightarrow> db_error + database" where
  "addNote_withWriteConnection drv timestamp' content' logicalDate db =
     withWriteConnection
       (\<lambda>conn. run_write conn (insert_note_statement drv timestamp' content' logicalDate) db)"

subsection \<open>saveBlog\<close>

text \<open>
  \<^verbatim>\<open>INSERT INTO daily_blog (logical_date, content) VALUES (?::DATE, ?)
  ON CONFLICT (logical_date) DO UPDATE SET content = excluded.content\<close>:
  \<^verbatim>\<open>logical_date\<close> is the primary key and \<^verbatim>\<open>content\<close> may be NULL.
\<close>

definition insert_blog :: "date \<Rightarrow> string option \<Rightarrow> daily_blog_row list \<Rightarrow> daily_blog_row list" where
  "insert_blog d c rows =
     (if d \<in> b_logical_date ` set rows
      then map (\<lambda>r. if b_logical_date r = d then r\<lparr>b_content := c\<rparr> else r) rows
      else rows @ [\<lparr>b_logical_date = d, b_content = c\<rparr>])"

definition insert_blog_statement ::
  "driver \<Rightarrow> js_value \<Rightarrow> js_value \<Rightarrow> database \<Rightarrow> db_error + database" where
  "insert_blog_statement drv logicalDate content' db =
     (case (cast_date drv logicalDate, bind_varchar drv content') of
        (Bound d, Bound c) \<Rightarrow> Inr (db\<lparr>daily_blog := insert_blog d (Some c) (daily_blog db)\<rparr>)
      | (Bound d, SqlNull) \<Rightarrow> Inr (db\<lparr>daily_blog := insert_blog d None (daily_blog db)\<rparr>)
      | _ \<Rightarrow> Inl StatementError)"

definition saveBlog :: "driver \<Rightarrow> js_value \<Rightarrow> js_value \<Rightarrow> database \<Rightarrow> db_error + database" where
  "saveBlog drv logicalDate content' db =
     (let conn = getConnection
      in run_write conn (insert_blog_statement drv logicalDate content') db)"

text \<open>The same function in the copy of the module under \<^verbatim>\<open>site-template/\<close>.\<close>

definition saveBlog_withWriteConnection ::
  "driver \<Rightarrow> js_value \<Rightarrow> js_value \<Rightarrow> database \<Rightarrow> db_error + database" where
  "saveBlog_withWriteConnection drv logicalDate content' db =
     withWriteConnection
       (\<lambda>conn. run_write conn (insert_blog_statement drv logicalDate content') db)"

section \<open>The write routes of server.ts\<close>

text \<open>
  A response is its status code and its JSON body. The request body is \<open>None\<close> when
  \<^verbatim>\<open>c.req.json()\<close> rejects it; destructuring a body that is null throws. Both are caught
  by the handler's \<^verbatim>\<open>catch\<close>, like an error of the database, and answered with 500.
\<close>

datatype response = Response nat js_value

definition error_response :: "nat \<Rightarrow> string \<Rightarrow> response" where
  "error_response status message = Response status (JObject [(''error'', JString message)])"

definition success_response :: response where
  "success_response = Response 200 (JObject [(''success'', JBool True)])"

definition post_note :: "driver \<Rightarrow> js_value option \<Rightarrow> database \<Rightarrow> response \<times> database" where
  "post_note drv request db =
     (case request of
        None \<Rightarrow> (error_response 500 ''Failed to add note'', db)
      | Some body \<Rightarrow>
          if body = JNull \<or> body = JUndefined
          then (error_response 500 ''Failed to add note'', db)
          else
            let timestamp' = property body ''timestamp'';
                content' = property body ''content'';
                logical_date' = property body ''logical_date''
            in if falsy timestamp' \<or> falsy content' \<or> falsy logical_date'
               then (error_response 400 ''timestamp, content, and logical_date are required'', db)
               else (case addNote drv timestamp' content' logical_date' db of
                       Inl e \<Rightarrow> (error_response 500 ''Failed to add note'', db)
                     | Inr db' \<Rightarrow> (success_response, db')))"

definition put_blog ::
  "driver \<Rightarrow> string \<Rightarrow> js_value option \<Rightarrow> database \<Rightarrow> response \<times> database" where
  "put_blog drv logicalDate request db =
     (case request of
        None \<Rightarrow> (error_response 500 ''Failed to save blog'', db)
      | Some body \<Rightarrow>
          if body = JNull \<or> body = JUndefined
          then (error_response 500 ''Failed to save blog'', db)
          else
            let content' = property body ''content''
            in if content' = JUndefined
               then (error_response 400 ''content is required'', db)
               else (case saveBlog drv (JString logicalDate) content' db of
                       Inl e \<Rightarrow> (error_response 500 ''Failed to save blog'', db)
                     | Inr db' \<Rightarrow> (success_response, db')))"

section \<open>CategoryStats\<close>

text \<open>
  The component receives the focus events of one day as \<^verbatim>\<open>getDayData\<close> returns them
  and accumulates \<^verbatim>\<open>durations: Record<string, number> = {}\<close> in a loop over the
  indices. The record is the list of its own properties in the order of their creation.

  The object literal inherits from \<^verbatim>\<open>Object.prototype\<close>, so reading
  \<^verbatim>\<open>durations[app]\<close> for an application name that is no own property finds the inherited
  property of that name, if there is one: a function for the method names below, the
  prototype object for \<^verbatim>\<open>__proto__\<close>. Such a value is truthy, and adding a number to it
  concatenates strings. A stored value is therefore a number or a text: \<open>Text k xs\<close> is
  the string conversion of the inherited property \<open>k\<close> followed by the decimal texts of
  the numbers \<open>xs\<close>.
\<close>

datatype total = Number real | Text string "real list"

definition object_prototype_methods :: "string list" where
  "object_prototype_methods =
     [''constructor'', ''__defineGetter__'', ''__defineSetter__'', ''hasOwnProperty'',
      ''__lookupGetter__'', ''__lookupSetter__'', ''isPrototypeOf'',
      ''propertyIsEnumerable'', ''toString'', ''valueOf'', ''toLocaleString'']"

text \<open>
  \<^verbatim>\<open>durations[app] = (durations[app] || 0) + cappedDuration\<close>. An own number \<open>v\<close> gives
  \<open>v + cappedDuration\<close> (a zero is replaced by 0); an own text is truthy and gets the
  number appended. Without an own property: assigning to \<^verbatim>\<open>__proto__\<close> a string is
  ignored by its setter, so nothing is stored; an inherited method yields a text, stored
  as an own property; any other name yields \<open>0 + cappedDuration\<close>.
\<close>

definition add_duration :: "string \<Rightarrow> real \<Rightarrow> (string \<times> total) list \<Rightarrow> (string \<times> total) list" where
  "add_duration app cappedDuration durations =
     (case map_of durations app of
        Some (Number v) \<Rightarrow> AList.update app (Number (v + cappedDuration)) durations
      | Some (Text k xs) \<Rightarrow> AList.update app (Text k (xs @ [cappedDuration])) durations
      | None \<Rightarrow>
          if app = ''__proto__'' then durations
          else if app \<in> set object_prototype_methods
          then AList.update app (Text app [cappedDuration]) durations
          else AList.update app (Number (0 + cappedDuration)) durations)"

text \<open>
  One iteration, at the event \<open>e\<close> followed by the events \<open>es\<close>:
  \<^verbatim>\<open>next\<close> is the time of \<^verbatim>\<open>events[i + 1]\<close> if there is one and \<^verbatim>\<open>current\<close> otherwise,
  and \<^verbatim>\<open>cappedDuration = Math.min(durationSecs, 30 * 60)\<close>.
\<close>

fun durations_loop :: "WindowEvent list \<Rightarrow> (string \<times> total) list \<Rightarrow> (string \<times> total) list" where
  "durations_loop [] durations = durations"
| "durations_loop (e # es) durations =
     (let current = timestamp e;
          next = (case es of [] \<Rightarrow> current | e' # _ \<Rightarrow> timestamp e');
          durationSecs = real_of_int (next - current) / 1000;
          cappedDuration = min durationSecs (30 * 60);
          app = app_name e
      in durations_loop es (add_duration app cappedDuration durations))"

text \<open>
  \<^verbatim>\<open>Object.entries\<close> lists the own properties whose names are array indices (canonical
  decimal numerals up to \<open>2\<^sup>3\<^sup>2 - 2\<close>) first, in ascending numeric order, and then the
  other properties in the order of their creation.
\<close>

definition is_digit :: "char \<Rightarrow> bool" where
  "is_digit c = (c \<in> set ''0123456789'')"

definition digit_value :: "char \<Rightarrow> nat" where
  "digit_value c = length (takeWhile (\<lambda>d. d \<noteq> c) ''0123456789'')"

definition decimal :: "string \<Rightarrow> nat" where
  "decimal s = foldl (\<lambda>n c. 10 * n + digit_value c) 0 s"

definition is_array_index :: "string \<Rightarrow> bool" where
  "is_array_index s =
     (s \<noteq> [] \<and> list_all is_digit s \<and> (s = ''0'' \<or> hd s \<noteq> CHR ''0'') \<and> decimal s \<le> 4294967294)"

definition Object_entries :: "(string \<times> total) list \<Rightarrow> (string \<times> total) list" where
  "Object_entries durations =
     sort_key (\<lambda>entry. decimal (fst entry)) (filter (\<lambda>entry. is_array_index (fst entry)) durations)
       @ filter (\<lambda>entry. \<not> is_array_index (fst entry)) durations"

text \<open>The entries as numbers, when every total is a number.\<close>

fun numbers :: "(string \<times> total) list \<Rightarrow> (string \<times> real) list option" where
  "numbers [] = Some []"
| "numbers ((k, Number v) # entries) = map_option (\<lambda>rows. (k, v) # rows) (numbers entries)"
| "numbers ((k, Text inherited xs) # entries) = None"

text \<open>
  \<^verbatim>\<open>Object.entries(durations).filter(([app]) => app !== "__LOCKEDSCREEN")
  .sort((a, b) => b[1] - a[1]).slice(0, 8)\<close>. On numbers the comparison function is
  consistent and the sort is stable: the result is \<open>Sorted\<close>, the rows by descending
  duration, at most 8. With a text among the totals the difference is NaN; the
  comparison function is then not consistent in general and the language leaves the
  order of the array to the implementation: the result is \<open>Unordered\<close>, the entries
  that the chart takes its rows from, at most 8 in some order. The chart rows keep the
  application name and the duration of each entry.
\<close>

datatype chart_rows = Sorted "(string \<times> real) list" | Unordered "(string \<times> total) list"

definition CategoryStats :: "WindowEvent list \<Rightarrow> chart_rows" where
  "CategoryStats events =
     (if events = [] then Sorted []
      else
        let entries = filter (\<lambda>entry. fst entry \<noteq> ''__LOCKEDSCREEN'')
                        (Object_entries (durations_loop events []))
        in case numbers entries of
             Some rows \<Rightarrow> Sorted (take 8 (sort_key (\<lambda>row. - snd row) rows))
           | None \<Rightarrow> Unordered entries)"

text \<open>
  The duration that the loop attributes to each event, in order: the gap to the next
  event, at most 30 minutes, in seconds; for the last event the gap is taken from the
  event to itself.
\<close>

fun attributed :: "WindowEvent list \<Rightarrow> (string \<times> real) list" where
  "attributed [] = []"
| "attributed [e] = [(app_name e, min (real_of_int (timestamp e - timestamp e) / 1000) (30 * 60))]"
| "attributed (e # e' # es) =
     (app_name e, min (real_of_int (timestamp e' - timestamp e) / 1000) (30 * 60))
       # attributed (e' # es)"

text \<open>The sum of the durations attributed to one application.\<close>

definition app_total :: "(string \<times> real) list \<Rightarrow> string \<Rightarrow> real" where
  "app_total ds app = sum_list (map snd (filter (\<lambda>entry. fst entry = app) ds))"

text \<open>
  Application names for which the record behaves as a dictionary of numbers: those that
  \<^verbatim>\<open>Object.prototype\<close> does not define.
\<close>

definition plain_name :: "string \<Rightarrow> bool" where
  "plain_name app = (app \<noteq> ''__proto__'' \<and> app \<notin> set object_prototype_methods)"

text \<open>A record whose totals are all numbers, given by its rows.\<close>

definition as_numbers :: "(string \<times> real) list \<Rightarrow> (string \<times> total) list" where
  "as_numbers rows = map (\<lambda>row. (fst row, Number (snd row))) rows"

section \<open>Category classifier\<close>

text \<open>
  The repository declares the rule type and stores the rule list among the settings,
  but holds no function that applies the rules.
\<close>

record CategoryRule =
  pattern :: string
  category :: string
  priority :: int

text \<open>
  The subject of a classification: the application name and the composite text
  (application name with window title or URL) that the patterns are matched against.
\<close>

record subject =
  subject_app_name :: string
  subject_text :: string

text \<open>
  Matching a regular expression against a text is a parameter: \<open>None\<close> when the pattern
  does not compile.
\<close>

type_synonym matcher = "string \<Rightarrow> string \<Rightarrow> bool option"

definition rule_matches :: "matcher \<Rightarrow> subject \<Rightarrow> CategoryRule \<Rightarrow> bool" where
  "rule_matches m subj r = (m (pattern r) (subject_text subj) = Some True)"

text \<open>
  Modelled from the spec: the order in which the classifier evaluates the rules, which
  no source file implements. Higher priority first, declaration order among equal
  priorities (the sort is stable).
\<close>

definition priority_order :: "CategoryRule list \<Rightarrow> CategoryRule list" where
  "priority_order rules = sort_key (\<lambda>r. - priority r) rules"

text \<open>
  Modelled from the spec: the classifier \<^verbatim>\<open>classify(subject, rules)\<close>, which no source
  file implements. It returns the category of the first rule, in priority order, whose
  pattern matches the subject; a rule whose pattern does not compile is skipped; without
  a matching rule the result is the raw application name.
\<close>

definition classify :: "matcher \<Rightarrow> subject \<Rightarrow> CategoryRule list \<Rightarrow> string" where
  "classify m subj rules =
     (case find (rule_matches m subj) (priority_order rules) of
        Some r \<Rightarrow> category r
      | None \<Rightarrow> subject_app_name subj)"

section \<open>Example data\<close>

definition empty_database :: database where
  "empty_database = \<lparr>window_events = [], key_events = [], notes_table = [], daily_blog = []\<rparr>"

definition focus :: "timestamp \<Rightarrow> string \<Rightarrow> date \<Rightarrow> window_events_row" where
  "focus t a d =
     \<lparr>w_timestamp = t, w_app_name = a, w_window_title = None, w_browser_url = None,
      w_logical_date = d\<rparr>"

text \<open>Day 1: Chrome at 09:00, VSCode at 09:05, Chrome at 09:40 (milliseconds of the day).\<close>

definition capped_gap_day :: database where
  "capped_gap_day =
     empty_database\<lparr>window_events :=
       [focus 32400000 ''Chrome'' 1, focus 32700000 ''VSCode'' 1, focus 34800000 ''Chrome'' 1]\<rparr>"

text \<open>Day 1: the screen locked at 09:00, Chrome at 09:10.\<close>

definition locked_screen_day :: database where
  "locked_screen_day =
     empty_database\<lparr>window_events :=
       [focus 32400000 ''__LOCKEDSCREEN'' 1, focus 33000000 ''Chrome'' 1]\<rparr>"

text \<open>Focus events on days 1 and 3, none on day 2; keystrokes on day 1 only.\<close>

definition gap_database :: database where
  "gap_database =
     empty_database\<lparr>
       window_events := [focus 32400000 ''Chrome'' 1, focus 32400000 ''VSCode'' 3],
       key_events := [\<lparr>k_timestamp = 32400000, k_key_count = 42, k_logical_date = 1\<rparr>]\<rparr>"

text \<open>Focus events on the five days 1 to 5.\<close>

definition five_days :: database where
  "five_days =
     empty_database\<lparr>window_events :=
       [focus 10 ''Chrome'' 3, focus 20 ''Chrome'' 1, focus 30 ''VSCode'' 5,
        focus 40 ''Chrome'' 2, focus 50 ''Mail'' 4, focus 60 ''Chrome'' 5]\<rparr>"

text \<open>Day 1 with a single focus event.\<close>

definition single_event_day :: database where
  "single_event_day = empty_database\<lparr>window_events := [focus 32400000 ''Chrome'' 1]\<rparr>"

text \<open>Day 1 with a single focus event of an application named like an inherited method.\<close>

definition constructor_day :: database where
  "constructor_day = empty_database\<lparr>window_events := [focus 32400000 ''constructor'' 1]\<rparr>"

text \<open>A daily log already stored for day 19737.\<close>

definition blog_database :: database where
  "blog_database =
     empty_database\<lparr>daily_blog := [\<lparr>b_logical_date = 19737, b_content = Some ''old log''\<rparr>]\<rparr>"

text \<open>
  A driver that accepts one timestamp string (instant 1705321800000) and two date
  strings (days 19737 and 19738), binds strings as VARCHAR and null as NULL, and rejects
  everything else.
\<close>

definition example_driver :: driver where
  "example_driver =
     \<lparr>cast_timestamp =
        (\<lambda>v. if v = JString ''2024-01-15T12:30:00.000Z'' then Bound 1705321800000 else Rejected),
      cast_date =
        (\<lambda>v. if v = JString ''2024-01-15'' then Bound 19737
             else if v = JString ''2024-01-16'' then Bound 19738
             else Rejected),
      bind_varchar = (\<lambda>v. case v of JString s \<Rightarrow> Bound s | JNull \<Rightarrow> SqlNull | _ \<Rightarrow> Rejected)\<rparr>"

text \<open>The body of a note request with the given content and logical date.\<close>

definition note_request :: "string \<Rightarrow> string \<Rightarrow> js_value" where
  "note_request text day =
     JObject [(''timestamp'', JString ''2024-01-15T12:30:00.000Z''),
              (''content'', JString text),
              (''logical_date'', JString day)]"

text \<open>A matcher for examples: the pattern matches a text that starts with it.\<close>

definition prefix_matcher :: matcher where
  "prefix_matcher p s = Some (take (length p) s = p)"

section \<open>Properties of getOverview\<close>

lemma overview_rows_dates:
  "map logical_date (overview_rows f t n db) =
     take n (rev (sorted_list_of_set (qualifying_dates f t db)))"
proof -
  let ?w = "filter (\<lambda>r. in_range f t (w_logical_date r)) (window_events db)"
  have "set (map w_logical_date ?w) = qualifying_dates f t db"
    by (auto simp: qualifying_dates_def)
  then have "sort (remdups (map w_logical_date ?w)) = sorted_list_of_set (qualifying_dates f t db)"
    by (metis sorted_list_of_set_sort_remdups)
  then show ?thesis
    by (simp add: overview_rows_def Let_def comp_def take_map)
qed

lemma finite_qualifying_dates: "finite (qualifying_dates f t db)"
  by (simp add: qualifying_dates_def)

lemma newest_first_take:
  fixes A :: "int set"
  shows "sorted_wrt (>) (take n (rev (sorted_list_of_set A)))"
proof -
  have "sorted_wrt (<) (sorted_list_of_set A)"
    by (rule strict_sorted_list_of_set)
  then have "sorted_wrt (>) (rev (sorted_list_of_set A))"
    by (simp add: sorted_wrt_rev)
  then show ?thesis
    by (rule sorted_wrt_take)
qed

lemma overview_rows_most_recent:
  "length (overview_rows fromDate toDate n db) = min n (card (qualifying_dates fromDate toDate db)) \<and>
   map logical_date (overview_rows fromDate toDate n db) =
     take n (rev (sorted_list_of_set (qualifying_dates fromDate toDate db))) \<and>
   sorted_wrt (>) (map logical_date (overview_rows fromDate toDate n db))"
proof -
  let ?Q = "qualifying_dates fromDate toDate db"
  have d: "map logical_date (overview_rows fromDate toDate n db) = take n (rev (sorted_list_of_set ?Q))"
    by (rule overview_rows_dates)
  have "length (map logical_date (overview_rows fromDate toDate n db)) = min n (card ?Q)"
    unfolding d by (simp add: min.commute)
  then have l: "length (overview_rows fromDate toDate n db) = min n (card ?Q)"
    by simp
  have s: "sorted_wrt (>) (map logical_date (overview_rows fromDate toDate n db))"
    unfolding d by (rule newest_first_take)
  from l d s show ?thesis by blast
qed

lemma getOverview_accepted:
  "0 \<le> n \<Longrightarrow> n < 2 ^ 63 \<Longrightarrow>
     getOverview fromDate toDate (Some n) db = Inr (overview_rows fromDate toDate (nat n) db)"
  by (simp add: getOverview_def)

lemma getOverview_refused:
  "n < 0 \<or> 2 ^ 63 \<le> n \<Longrightarrow> getOverview fromDate toDate (Some n) db = Inl StatementError"
  by (simp add: getOverview_def)

lemma getOverview_NaN: "getOverview fromDate toDate None db = Inl StatementError"
  by (simp add: getOverview_def)

lemma getOverview_Inr:
  assumes "getOverview fromDate toDate limit db = Inr days"
  shows "\<exists>n. days = overview_rows fromDate toDate n db"
  using assms by (auto simp: getOverview_def split: option.splits if_splits)

text \<open>
  Claim C4, as amended: for every database and every limit \<open>n\<close> from 0 up to the largest
  64-bit signed integer, \<^verbatim>\<open>getOverview\<close> returns at most \<open>n\<close> summaries (exactly \<open>n\<close>, or
  all when fewer dates qualify); their logical dates are the first \<open>n\<close> of the qualifying
  dates taken in descending order, so they are the \<open>n\<close> most recent ones, newest first.
  For a limit that is negative, not a number, or beyond that range, the statement fails
  and no summaries are returned.
\<close>

theorem getOverview_limit_most_recent:
  "(0 \<le> n \<and> n < 2 ^ 63 \<longrightarrow>
      (\<exists>days. getOverview fromDate toDate (Some n) db = Inr days \<and>
         length days \<le> nat n \<and>
         length days = min (nat n) (card (qualifying_dates fromDate toDate db)) \<and>
         map logical_date days =
           take (nat n) (rev (sorted_list_of_set (qualifying_dates fromDate toDate db))) \<and>
         sorted_wrt (>) (map logical_date days))) \<and>
   (n < 0 \<or> 2 ^ 63 \<le> n \<longrightarrow> getOverview fromDate toDate (Some n) db = Inl StatementError) \<and>
   getOverview fromDate toDate None db = Inl StatementError"
proof -
  have ok: "\<exists>days. getOverview fromDate toDate (Some n) db = Inr days \<and>
         length days \<le> nat n \<and>
         length days = min (nat n) (card (qualifying_dates fromDate toDate db)) \<and>
         map logical_date days =
           take (nat n) (rev (sorted_list_of_set (qualifying_dates fromDate toDate db))) \<and>
         sorted_wrt (>) (map logical_date days)"
    if "0 \<le> n" and "n < 2 ^ 63"
  proof -
    let ?days = "overview_rows fromDate toDate (nat n) db"
    have "getOverview fromDate toDate (Some n) db = Inr ?days"
      using that by (rule getOverview_accepted)
    moreover have "length ?days \<le> nat n"
      using overview_rows_most_recent [of fromDate toDate "nat n" db] by simp
    ultimately show ?thesis
      using overview_rows_most_recent [of fromDate toDate "nat n" db] by blast
  qed
  from ok getOverview_refused [of n fromDate toDate db] getOverview_NaN [of fromDate toDate db]
  show ?thesis by blast
qed

text \<open>
  The limit \<open>2\<^sup>6\<^sup>3\<close>, as the route passes it for \<^verbatim>\<open>?limit=9223372036854775808\<close>, is a
  limit for which the claim as stated promises the most recent summaries; the statement
  fails, as it does for the limits -1 and NaN.
\<close>

theorem getOverview_limit_out_of_range:
  "getOverview None None (Some 9223372036854775808) five_days = Inl StatementError \<and>
   getOverview None None (Some (- 1)) five_days = Inl StatementError \<and>
   getOverview None None None five_days = Inl StatementError"
  by (simp add: getOverview_def)

lemma five_days_overview:
  "overview_rows None None 2 five_days =
     [\<lparr>logical_date = 5, total_keys = 0, unique_apps = 2\<rparr>,
      \<lparr>logical_date = 4, total_keys = 0, unique_apps = 1\<rparr>]"
  by (simp add: overview_rows_def five_days_def empty_database_def focus_def in_range_def
      total_keys_of_def unique_apps_of_def)

theorem getOverview_limit_most_recent_witness:
  "getOverview None None (Some 2) five_days =
     Inr [\<lparr>logical_date = 5, total_keys = 0, unique_apps = 2\<rparr>,
          \<lparr>logical_date = 4, total_keys = 0, unique_apps = 1\<rparr>] \<and>
   take 2 (rev (sorted_list_of_set (qualifying_dates None None five_days))) = [5, 4] \<and>
   min 2 (card (qualifying_dates None None five_days)) = 2 \<and>
   getOverview None None (Some (- 1)) five_days = Inl StatementError"
proof -
  have two_days: "getOverview None None (Some 2) five_days =
     Inr [\<lparr>logical_date = 5, total_keys = 0, unique_apps = 2\<rparr>,
          \<lparr>logical_date = 4, total_keys = 0, unique_apps = 1\<rparr>]"
    by (simp add: getOverview_def five_days_overview)
  have h: "(0::int) \<le> 2 \<and> (2::int) < 2 ^ 63"
    by simp
  from getOverview_limit_most_recent [of 2 None None five_days] h
  obtain days where "getOverview None None (Some 2) five_days = Inr days"
    and "length days = min (nat 2) (card (qualifying_dates None None five_days))"
    and "map logical_date days =
           take (nat 2) (rev (sorted_list_of_set (qualifying_dates None None five_days)))"
    by blast
  with two_days have a: "take 2 (rev (sorted_list_of_set (qualifying_dates None None five_days))) = [5, 4]"
    and b: "min 2 (card (qualifying_dates None None five_days)) = 2"
    by auto
  have h': "(- 1::int) < 0 \<or> (2::int) ^ 63 \<le> - 1"
    by simp
  from getOverview_limit_most_recent [of "- 1" None None five_days] h'
  have c: "getOverview None None (Some (- 1)) five_days = Inl StatementError"
    by blast
  from two_days a b c show ?thesis by blast
qed

lemma overview_rows_entry:
  assumes "s \<in> set (overview_rows f t n db)"
  shows "logical_date s \<in> qualifying_dates f t db"
    and "total_keys s = total_keys_of db (logical_date s)"
    and "unique_apps s =
           unique_apps_of (filter (\<lambda>r. in_range f t (w_logical_date r)) (window_events db))
             (logical_date s)"
proof -
  have "logical_date s \<in> set (map logical_date (overview_rows f t n db))"
    using assms by simp
  then have "logical_date s \<in> set (rev (sorted_list_of_set (qualifying_dates f t db)))"
    unfolding overview_rows_dates by (rule in_set_takeD)
  then show "logical_date s \<in> qualifying_dates f t db"
    by (simp add: finite_qualifying_dates)
  show "total_keys s = total_keys_of db (logical_date s)"
    using assms by (auto simp: overview_rows_def Let_def)
  show "unique_apps s =
           unique_apps_of (filter (\<lambda>r. in_range f t (w_logical_date r)) (window_events db))
             (logical_date s)"
    using assms by (auto simp: overview_rows_def Let_def)
qed

lemma unique_apps_of_positive:
  assumes "d \<in> w_logical_date ` set w"
  shows "1 \<le> unique_apps_of w d"
proof -
  from assms obtain r where "r \<in> set w" "w_logical_date r = d" by auto
  then have "filter (\<lambda>r. w_logical_date r = d) w \<noteq> []"
    by (auto simp: filter_empty_conv)
  then have "remdups (map w_app_name (filter (\<lambda>r. w_logical_date r = d) w)) \<noteq> []"
    by simp
  then show ?thesis
    unfolding unique_apps_of_def by (simp add: Suc_le_eq)
qed

lemma total_keys_of_no_samples:
  assumes "\<forall>k\<in>set (key_events db). k_logical_date k \<noteq> d"
  shows "total_keys_of db d = 0"
proof -
  have "filter (\<lambda>k. k_logical_date k = d) (key_events db) = []"
    using assms by (simp add: filter_empty_conv)
  then show ?thesis by (simp add: total_keys_of_def)
qed

lemma overview_rows_only_days_with_focus_events:
  "(d \<notin> w_logical_date ` set (window_events db) \<longrightarrow>
      d \<notin> logical_date ` set (overview_rows fromDate toDate n db)) \<and>
   (\<forall>s\<in>set (overview_rows fromDate toDate n db).
      in_range fromDate toDate (logical_date s) \<and>
      logical_date s \<in> w_logical_date ` set (window_events db) \<and>
      1 \<le> unique_apps s \<and>
      ((\<forall>k\<in>set (key_events db). k_logical_date k \<noteq> logical_date s) \<longrightarrow> total_keys s = 0))"
proof -
  have entry: "in_range fromDate toDate (logical_date s) \<and>
      logical_date s \<in> w_logical_date ` set (window_events db) \<and>
      1 \<le> unique_apps s \<and>
      ((\<forall>k\<in>set (key_events db). k_logical_date k \<noteq> logical_date s) \<longrightarrow> total_keys s = 0)"
    if s: "s \<in> set (overview_rows fromDate toDate n db)" for s
  proof -
    let ?w = "filter (\<lambda>r. in_range fromDate toDate (w_logical_date r)) (window_events db)"
    from overview_rows_entry(1) [OF s]
    have q: "logical_date s \<in> w_logical_date ` set ?w"
      by (simp add: qualifying_dates_def)
    then have a: "in_range fromDate toDate (logical_date s)" by auto
    from q have b: "logical_date s \<in> w_logical_date ` set (window_events db)" by auto
    from unique_apps_of_positive [OF q] overview_rows_entry(3) [OF s]
    have c: "1 \<le> unique_apps s" by simp
    from overview_rows_entry(2) [OF s] total_keys_of_no_samples
    have e: "(\<forall>k\<in>set (key_events db). k_logical_date k \<noteq> logical_date s) \<longrightarrow> total_keys s = 0"
      by simp
    from a b c e show ?thesis by blast
  qed
  then show ?thesis by blast
qed

text \<open>
  Claim C2, as amended: the overview has entries only for logical dates that lie within
  the requested bounds and have at least one focus event, each with a unique application
  count of at least 1. A logical date without focus events has no entry: it is omitted,
  not zero-filled. Only the keystroke total is zero-filled, for a date that has focus
  events but no keystroke samples. This holds of every list of summaries that
  \<^verbatim>\<open>getOverview\<close> returns, whatever the bounds and the limit.
\<close>

theorem getOverview_omits_days_without_focus_events:
  "getOverview fromDate toDate limit db = Inr days \<longrightarrow>
   (d \<notin> w_logical_date ` set (window_events db) \<longrightarrow> d \<notin> logical_date ` set days) \<and>
   (\<forall>s\<in>set days.
      in_range fromDate toDate (logical_date s) \<and>
      logical_date s \<in> w_logical_date ` set (window_events db) \<and>
      1 \<le> unique_apps s \<and>
      ((\<forall>k\<in>set (key_events db). k_logical_date k \<noteq> logical_date s) \<longrightarrow> total_keys s = 0))"
proof
  assume "getOverview fromDate toDate limit db = Inr days"
  then obtain n where "days = overview_rows fromDate toDate n db"
    using getOverview_Inr by blast
  then show "(d \<notin> w_logical_date ` set (window_events db) \<longrightarrow> d \<notin> logical_date ` set days) \<and>
   (\<forall>s\<in>set days.
      in_range fromDate toDate (logical_date s) \<and>
      logical_date s \<in> w_logical_date ` set (window_events db) \<and>
      1 \<le> unique_apps s \<and>
      ((\<forall>k\<in>set (key_events db). k_logical_date k \<noteq> logical_date s) \<longrightarrow> total_keys s = 0))"
    using overview_rows_only_days_with_focus_events [of d db fromDate toDate n] by simp
qed

lemma gap_database_overview:
  "getOverview (Some 1) (Some 3) (Some 30) gap_database =
     Inr [\<lparr>logical_date = 3, total_keys = 0, unique_apps = 1\<rparr>,
          \<lparr>logical_date = 1, total_keys = 42, unique_apps = 1\<rparr>]"
  by (simp add: getOverview_def overview_rows_def gap_database_def empty_database_def focus_def
      in_range_def total_keys_of_def unique_apps_of_def)

text \<open>
  Day 2 lies within the requested bounds 1 to 3 and has neither focus events nor
  keystroke samples; the overview holds the entries of days 3 and 1 and no zero-filled
  entry for day 2.
\<close>

theorem getOverview_gap_day_omitted:
  "getOverview (Some 1) (Some 3) (Some 30) gap_database =
     Inr [\<lparr>logical_date = 3, total_keys = 0, unique_apps = 1\<rparr>,
          \<lparr>logical_date = 1, total_keys = 42, unique_apps = 1\<rparr>] \<and>
   in_range (Some 1) (Some 3) 2 \<and>
   2 \<notin> w_logical_date ` set (window_events gap_database) \<and>
   2 \<notin> k_logical_date ` set (key_events gap_database) \<and>
   \<lparr>logical_date = 2, total_keys = 0, unique_apps = 0\<rparr>
     \<notin> set [\<lparr>logical_date = 3, total_keys = 0, unique_apps = 1\<rparr>,
            \<lparr>logical_date = 1, total_keys = 42, unique_apps = 1\<rparr>] \<and>
   2 \<notin> logical_date ` set [\<lparr>logical_date = 3, total_keys = 0, unique_apps = 1\<rparr>,
                            \<lparr>logical_date = 1, total_keys = 42, unique_apps = 1\<rparr>]"
proof -
  have "in_range (Some 1) (Some 3) 2"
    by (simp add: in_range_def)
  moreover have "2 \<notin> w_logical_date ` set (window_events gap_database)"
    by (simp add: gap_database_def empty_database_def focus_def)
  moreover have "2 \<notin> k_logical_date ` set (key_events gap_database)"
    by (simp add: gap_database_def empty_database_def)
  ultimately show ?thesis
    using gap_database_overview by simp
qed

theorem getOverview_omits_days_without_focus_events_witness:
  "getOverview (Some 1) (Some 3) (Some 30) gap_database =
     Inr [\<lparr>logical_date = 3, total_keys = 0, unique_apps = 1\<rparr>,
          \<lparr>logical_date = 1, total_keys = 42, unique_apps = 1\<rparr>] \<and>
   2 \<notin> w_logical_date ` set (window_events gap_database) \<and>
   2 \<notin> logical_date ` set [\<lparr>logical_date = 3, total_keys = 0, unique_apps = 1\<rparr>,
                            \<lparr>logical_date = 1, total_keys = 42, unique_apps = 1\<rparr>] \<and>
   3 \<notin> k_logical_date ` set (key_events gap_database) \<and>
   in_range (Some 1) (Some 3) 3"
proof -
  let ?s = "\<lparr>logical_date = 3, total_keys = 0, unique_apps = 1\<rparr>"
  let ?days = "[?s, \<lparr>logical_date = 1, total_keys = 42, unique_apps = 1\<rparr>]"
  note inst = getOverview_omits_days_without_focus_events
                [of "Some 1" "Some 3" "Some 30" gap_database ?days 2]
  have a: "2 \<notin> w_logical_date ` set (window_events gap_database)"
    by (simp add: gap_database_def empty_database_def focus_def)
  have b: "3 \<notin> k_logical_date ` set (key_events gap_database)"
    by (simp add: gap_database_def empty_database_def)
  have c: "?s \<in> set ?days"
    by simp
  from inst gap_database_overview a have d: "2 \<notin> logical_date ` set ?days"
    by blast
  from inst gap_database_overview c have "in_range (Some 1) (Some 3) (logical_date ?s)"
    by blast
  then have e: "in_range (Some 1) (Some 3) 3"
    by simp
  from gap_database_overview a b d e show ?thesis by blast
qed

section \<open>Properties of getAppUsageForDate\<close>

lemma lead_Nil_iff: "lead rows = [] \<longleftrightarrow> rows = []"
  by (induction rows rule: lead.induct) simp_all

lemma lead_last:
  "rows \<noteq> [] \<Longrightarrow> ed_next_timestamp (last (lead rows)) = None"
  by (induction rows rule: lead.induct) (simp_all add: lead_Nil_iff)

lemma lead_nth:
  assumes "Suc i < length rows"
  shows "row_duration (lead rows ! i) =
           real_of_int (w_timestamp (rows ! Suc i) - w_timestamp (rows ! i)) / 1000"
  using assms
proof (induction rows arbitrary: i rule: lead.induct)
  case 1
  then show ?case by simp
next
  case (2 r)
  then show ?case by simp
next
  case (3 r r' rs)
  then show ?case by (cases i) (simp_all add: row_duration_def)
qed

lemma event_durations_Nil_iff:
  "event_durations d db = [] \<longleftrightarrow> filter (\<lambda>r. w_logical_date r = d) (window_events db) = []"
proof -
  have "sort_key w_timestamp xs = [] \<longleftrightarrow> xs = []" for xs :: "window_events_row list"
    by (metis length_sort length_0_conv)
  then show ?thesis by (simp add: event_durations_def lead_Nil_iff)
qed

lemma event_durations_last:
  assumes "filter (\<lambda>r. w_logical_date r = d) (window_events db) \<noteq> []"
  shows "row_duration (last (event_durations d db)) = 0"
proof -
  let ?rows = "sort_key w_timestamp (filter (\<lambda>r. w_logical_date r = d) (window_events db))"
  have "?rows \<noteq> []"
    using assms by (metis length_sort length_0_conv)
  then have "ed_next_timestamp (last (lead ?rows)) = None"
    by (rule lead_last)
  then show ?thesis
    by (simp add: event_durations_def row_duration_def)
qed

lemma getAppUsageForDate_single:
  assumes "filter (\<lambda>r. w_logical_date r = d) (window_events db) = [r]"
  shows "getAppUsageForDate d db =
           [\<lparr>usage_app_name = w_app_name r, duration_seconds = 0, event_count = 1\<rparr>]"
  using assms
  by (simp add: getAppUsageForDate_def event_durations_def row_duration_def
      first_occurrences_def)

lemma getAppUsageForDate_empty:
  assumes "filter (\<lambda>r. w_logical_date r = d) (window_events db) = []"
  shows "getAppUsageForDate d db = []"
  using assms by (simp add: getAppUsageForDate_def event_durations_def first_occurrences_def)

text \<open>
  In every result of \<^verbatim>\<open>getAppUsageForDate\<close> the final event of the day contributes 0:
  a day with a single event yields one row with duration 0, a day without events yields
  no rows.
\<close>

lemma getAppUsageForDate_final_event_zero:
  "(filter (\<lambda>r. w_logical_date r = d) (window_events db) \<noteq> [] \<longrightarrow>
      event_durations d db \<noteq> [] \<and> row_duration (last (event_durations d db)) = 0) \<and>
   (filter (\<lambda>r. w_logical_date r = d) (window_events db) = [r] \<longrightarrow>
      getAppUsageForDate d db =
        [\<lparr>usage_app_name = w_app_name r, duration_seconds = 0, event_count = 1\<rparr>]) \<and>
   (filter (\<lambda>r. w_logical_date r = d) (window_events db) = [] \<longrightarrow>
      getAppUsageForDate d db = [])"
  using event_durations_Nil_iff [of d db] event_durations_last [of d db]
    getAppUsageForDate_single [of d db r] getAppUsageForDate_empty [of d db]
  by blast

section \<open>Properties of CategoryStats\<close>

lemma add_duration_plain_new:
  "map_of ds app = None \<Longrightarrow> plain_name app \<Longrightarrow>
     add_duration app x ds = AList.update app (Number (0 + x)) ds"
  by (simp add: add_duration_def plain_name_def)

lemma add_duration_number:
  "map_of ds app = Some (Number v) \<Longrightarrow>
     add_duration app x ds = AList.update app (Number (v + x)) ds"
  by (simp add: add_duration_def)

lemma add_duration_method_new:
  "map_of ds app = None \<Longrightarrow> app \<noteq> ''__proto__'' \<Longrightarrow> app \<in> set object_prototype_methods \<Longrightarrow>
     add_duration app x ds = AList.update app (Text app [x]) ds"
  by (simp add: add_duration_def)

lemma map_of_as_numbers: "map_of (as_numbers rows) k = map_option Number (map_of rows k)"
  by (induction rows) (simp_all add: as_numbers_def)

lemma update_as_numbers:
  "AList.update k (Number v) (as_numbers rows) = as_numbers (AList.update k v rows)"
  by (induction rows) (simp_all add: as_numbers_def)

lemma numbers_as_numbers: "numbers (as_numbers rows) = Some rows"
  by (induction rows) (simp_all add: as_numbers_def)

lemma filter_as_numbers:
  "filter (\<lambda>entry. P (fst entry)) (as_numbers rows) =
     as_numbers (filter (\<lambda>row. P (fst row)) rows)"
  by (induction rows) (simp_all add: as_numbers_def)

lemma insort_key_as_numbers:
  "insort_key (\<lambda>entry. f (fst entry)) (fst row, Number (snd row)) (as_numbers rows) =
     as_numbers (insort_key (\<lambda>row. f (fst row)) row rows)"
  by (induction rows) (simp_all add: as_numbers_def)

lemma sort_key_as_numbers:
  "sort_key (\<lambda>entry. f (fst entry)) (as_numbers rows) =
     as_numbers (sort_key (\<lambda>row. f (fst row)) rows)"
proof (induction rows)
  case Nil
  show ?case by (simp add: as_numbers_def)
next
  case (Cons row rows)
  have "as_numbers (row # rows) = (fst row, Number (snd row)) # as_numbers rows"
    by (simp add: as_numbers_def)
  then show ?case
    by (simp add: Cons.IH insort_key_as_numbers)
qed

text \<open>The order in which \<^verbatim>\<open>Object.entries\<close> lists the rows of a record of numbers.\<close>

lemma Object_entries_as_numbers:
  "Object_entries (as_numbers rows) =
     as_numbers (sort_key (\<lambda>row. decimal (fst row)) (filter (\<lambda>row. is_array_index (fst row)) rows)
                 @ filter (\<lambda>row. \<not> is_array_index (fst row)) rows)"
proof -
  have app: "as_numbers (xs @ ys) = as_numbers xs @ as_numbers ys" for xs ys
    by (simp add: as_numbers_def)
  show ?thesis
    unfolding Object_entries_def app
    by (simp only: filter_as_numbers [of is_array_index]
        filter_as_numbers [of "\<lambda>k. \<not> is_array_index k"] sort_key_as_numbers [of decimal])
qed

lemma add_duration_as_numbers:
  assumes "plain_name app"
  shows "add_duration app x (as_numbers rows) =
           as_numbers (AList.update app ((case map_of rows app of None \<Rightarrow> 0 | Some v \<Rightarrow> v) + x) rows)"
proof (cases "map_of rows app")
  case None
  then have "map_of (as_numbers rows) app = None"
    by (simp add: map_of_as_numbers)
  then show ?thesis
    using assms None by (simp add: add_duration_plain_new update_as_numbers)
next
  case (Some v)
  then have "map_of (as_numbers rows) app = Some (Number v)"
    by (simp add: map_of_as_numbers)
  then show ?thesis
    using Some by (simp add: add_duration_number update_as_numbers)
qed

lemma app_total_Cons:
  "app_total ((a, x) # ds) app = (if a = app then x else 0) + app_total ds app"
  by (simp add: app_total_def)

lemma attributed_tl: "tl (attributed (e # es)) = attributed es"
  by (cases es) simp_all

lemma attributed_hd_fst: "fst (hd (attributed (e # es))) = app_name e"
  by (cases es) simp_all

lemma attributed_not_Nil: "attributed (e # es) \<noteq> []"
  by (cases es) simp_all

lemma durations_loop_step:
  "durations_loop (e # es) durations =
     durations_loop es (add_duration (app_name e) (snd (hd (attributed (e # es)))) durations)"
  by (cases es) (simp_all add: Let_def)

lemma app_total_attributed_Cons:
  "app_total (attributed (e # es)) app =
     (if app_name e = app then snd (hd (attributed (e # es))) else 0) + app_total (attributed es) app"
proof -
  obtain a x where h: "hd (attributed (e # es)) = (a, x)" by (cases "hd (attributed (e # es))")
  have "attributed (e # es) = (a, x) # attributed es"
    using attributed_not_Nil [of e es] attributed_tl [of e es] h
    by (cases "attributed (e # es)") simp_all
  moreover have "a = app_name e" using attributed_hd_fst [of e es] h by simp
  ultimately show ?thesis using h by (simp add: app_total_Cons)
qed

text \<open>
  On plain application names the loop keeps a record of numbers, one row for each
  application, whose total is the sum of the durations attributed to it.
\<close>

lemma durations_loop_plain:
  assumes "\<forall>e\<in>set es. plain_name (app_name e)" and "distinct (map fst rows0)"
  shows "\<exists>rows. durations_loop es (as_numbers rows0) = as_numbers rows \<and>
           distinct (map fst rows) \<and>
           (\<forall>app. map_of rows app =
              (if app \<in> fst ` set rows0 \<union> app_name ` set es
               then Some ((case map_of rows0 app of None \<Rightarrow> 0 | Some v \<Rightarrow> v)
                            + app_total (attributed es) app)
               else None))"
  using assms
proof (induction es arbitrary: rows0)
  case Nil
  have "\<forall>app. map_of rows0 app =
          (if app \<in> fst ` set rows0 \<union> app_name ` set []
           then Some ((case map_of rows0 app of None \<Rightarrow> 0 | Some v \<Rightarrow> v)
                        + app_total (attributed []) app)
           else None)"
    by (auto simp: app_total_def map_of_eq_None_iff split: option.splits)
  with Nil.prems(2) show ?case
    by auto
next
  case (Cons e es)
  let ?x = "snd (hd (attributed (e # es)))"
  let ?rows1 = "AList.update (app_name e)
                  ((case map_of rows0 (app_name e) of None \<Rightarrow> 0 | Some v \<Rightarrow> v) + ?x) rows0"
  from Cons.prems(1) have plain: "plain_name (app_name e)" and rest: "\<forall>e\<in>set es. plain_name (app_name e)"
    by simp_all
  have d1: "distinct (map fst ?rows1)"
    using Cons.prems(2) by (simp add: distinct_update)
  from Cons.IH [OF rest d1] obtain rows where
    loop: "durations_loop es (as_numbers ?rows1) = as_numbers rows"
    and dist: "distinct (map fst rows)"
    and tot: "\<forall>app. map_of rows app =
              (if app \<in> fst ` set ?rows1 \<union> app_name ` set es
               then Some ((case map_of ?rows1 app of None \<Rightarrow> 0 | Some v \<Rightarrow> v)
                            + app_total (attributed es) app)
               else None)"
    by blast
  have step: "durations_loop (e # es) (as_numbers rows0) = as_numbers rows"
    unfolding durations_loop_step add_duration_as_numbers [OF plain] by (rule loop)
  have "map_of rows app =
              (if app \<in> fst ` set rows0 \<union> app_name ` set (e # es)
               then Some ((case map_of rows0 app of None \<Rightarrow> 0 | Some v \<Rightarrow> v)
                            + app_total (attributed (e # es)) app)
               else None)" for app
    using tot [rule_format, of app]
    unfolding app_total_attributed_Cons
    by (auto simp: update_conv' dom_update split: option.splits)
  with step dist show ?case
    by blast
qed

lemma CategoryStats_plain_names:
  assumes "\<forall>e\<in>set events. plain_name (app_name e)"
  shows "\<exists>rows. CategoryStats events = Sorted rows \<and> length rows \<le> 8 \<and>
           (\<forall>row\<in>set rows. fst row \<noteq> ''__LOCKEDSCREEN'' \<and>
                             snd row = app_total (attributed events) (fst row))"
proof (cases "events = []")
  case True
  then show ?thesis
    by (simp add: CategoryStats_def)
next
  case False
  have e0: "as_numbers [] = []"
    by (simp add: as_numbers_def)
  from durations_loop_plain [OF assms, of "[]"] obtain totals where
    loop: "durations_loop events [] = as_numbers totals"
    and dist: "distinct (map fst totals)"
    and tot: "\<forall>app. map_of totals app =
              (if app \<in> app_name ` set events
               then Some (app_total (attributed events) app) else None)"
    unfolding e0 by auto
  let ?listed = "sort_key (\<lambda>row. decimal (fst row)) (filter (\<lambda>row. is_array_index (fst row)) totals)
                 @ filter (\<lambda>row. \<not> is_array_index (fst row)) totals"
  let ?kept = "filter (\<lambda>row. fst row \<noteq> ''__LOCKEDSCREEN'') ?listed"
  let ?rows = "take 8 (sort_key (\<lambda>row. - snd row) ?kept)"
  have entries: "filter (\<lambda>entry. fst entry \<noteq> ''__LOCKEDSCREEN'')
                   (Object_entries (durations_loop events [])) = as_numbers ?kept"
    unfolding loop Object_entries_as_numbers
    by (rule filter_as_numbers [of "\<lambda>k. k \<noteq> ''__LOCKEDSCREEN''"])
  have chart: "CategoryStats events = Sorted ?rows"
    using False unfolding CategoryStats_def entries
    by (simp add: numbers_as_numbers)
  have len: "length ?rows \<le> 8"
    by simp
  have member: "fst row \<noteq> ''__LOCKEDSCREEN'' \<and> snd row = app_total (attributed events) (fst row)"
    if "row \<in> set ?rows" for row
  proof -
    from that have "row \<in> set (sort_key (\<lambda>row. - snd row) ?kept)"
      by (rule in_set_takeD)
    then have kept: "row \<in> set ?kept"
      by simp
    then have a: "fst row \<noteq> ''__LOCKEDSCREEN''"
      by auto
    from kept have "row \<in> set totals"
      by auto
    then have "(fst row, snd row) \<in> set totals"
      by simp
    with dist have "map_of totals (fst row) = Some (snd row)"
      by (rule map_of_is_SomeI)
    with tot have "snd row = app_total (attributed events) (fst row)"
      by (simp split: if_splits)
    with a show ?thesis by blast
  qed
  from chart len member show ?thesis
    by blast
qed

lemma attributed_nth:
  assumes "Suc i < length es"
  shows "attributed es ! i =
           (app_name (es ! i),
            min (real_of_int (timestamp (es ! Suc i) - timestamp (es ! i)) / 1000) (30 * 60))"
  using assms
proof (induction es arbitrary: i rule: attributed.induct)
  case 1
  then show ?case by simp
next
  case (2 e)
  then show ?case by simp
next
  case (3 e e' es)
  then show ?case by (cases i) simp_all
qed

lemma attributed_last:
  assumes "es \<noteq> []"
  shows "last (attributed es) = (app_name (last es), 0)"
  using assms
  by (induction es rule: attributed.induct) (simp_all add: attributed_not_Nil)

lemma CategoryStats_empty: "CategoryStats [] = Sorted []"
  by (simp add: CategoryStats_def)

section \<open>Durations: the claims\<close>

lemma example_names:
  "plain_name ''Chrome''" "plain_name ''VSCode''" "plain_name ''__LOCKEDSCREEN''"
  "\<not> is_array_index ''Chrome''" "\<not> is_array_index ''VSCode''"
  "\<not> is_array_index ''__LOCKEDSCREEN''" "\<not> is_array_index ''constructor''"
  "''constructor'' \<in> set object_prototype_methods"
  by (simp_all add: plain_name_def object_prototype_methods_def is_array_index_def is_digit_def)

lemma capped_gap_day_events:
  "day_window_events (getDayData 1 capped_gap_day) =
    [\<lparr>timestamp = 32400000, app_name = ''Chrome'', window_title = None, browser_url = None\<rparr>,
     \<lparr>timestamp = 32700000, app_name = ''VSCode'', window_title = None, browser_url = None\<rparr>,
     \<lparr>timestamp = 34800000, app_name = ''Chrome'', window_title = None, browser_url = None\<rparr>]"
  by (simp add: getDayData_def truthy_or_null_def capped_gap_day_def empty_database_def focus_def)

lemma capped_gap_day_durations:
  "durations_loop (day_window_events (getDayData 1 capped_gap_day)) [] =
     [(''Chrome'', Number 300), (''VSCode'', Number 1800)]"
proof -
  have 1: "add_duration ''Chrome'' 300 [] = [(''Chrome'', Number 300)]"
    by (simp add: add_duration_plain_new example_names)
  have 2: "add_duration ''VSCode'' 1800 [(''Chrome'', Number 300)] =
             [(''Chrome'', Number 300), (''VSCode'', Number 1800)]"
    by (simp add: add_duration_plain_new example_names)
  have 3: "add_duration ''Chrome'' 0 [(''Chrome'', Number 300), (''VSCode'', Number 1800)] =
             [(''Chrome'', Number 300), (''VSCode'', Number 1800)]"
    by (simp add: add_duration_number)
  show ?thesis
    unfolding capped_gap_day_events by (simp add: 1 2 3)
qed

lemma capped_gap_day_chart:
  "CategoryStats (day_window_events (getDayData 1 capped_gap_day)) =
     Sorted [(''VSCode'', 1800), (''Chrome'', 300)]"
proof -
  have e: "day_window_events (getDayData 1 capped_gap_day) \<noteq> []"
    unfolding capped_gap_day_events by simp
  have o: "Object_entries [(''Chrome'', Number 300), (''VSCode'', Number 1800)] =
             [(''Chrome'', Number 300), (''VSCode'', Number 1800)]"
    by (simp add: Object_entries_def example_names)
  show ?thesis
    unfolding CategoryStats_def capped_gap_day_durations o using e by simp
qed

lemma capped_gap_day_usage:
  "getAppUsageForDate 1 capped_gap_day =
     [\<lparr>usage_app_name = ''VSCode'', duration_seconds = 2100, event_count = 1\<rparr>,
      \<lparr>usage_app_name = ''Chrome'', duration_seconds = 300, event_count = 2\<rparr>]"
proof -
  have eds: "event_durations 1 capped_gap_day =
    [\<lparr>ed_app_name = ''Chrome'', ed_timestamp = 32400000, ed_next_timestamp = Some 32700000\<rparr>,
     \<lparr>ed_app_name = ''VSCode'', ed_timestamp = 32700000, ed_next_timestamp = Some 34800000\<rparr>,
     \<lparr>ed_app_name = ''Chrome'', ed_timestamp = 34800000, ed_next_timestamp = None\<rparr>]"
    by (simp add: event_durations_def capped_gap_day_def empty_database_def focus_def)
  show ?thesis
    unfolding getAppUsageForDate_def eds
    by (simp add: first_occurrences_def row_duration_def)
qed

text \<open>
  Claim C1 says that every gap is capped at 30 minutes, so that a gap of 35 minutes
  contributes 30. For Chrome at 09:00, VSCode at 09:05 and Chrome at 09:40,
  \<^verbatim>\<open>getAppUsageForDate\<close> attributes the whole gap of 2100 seconds (35 minutes) to
  VSCode; \<^verbatim>\<open>CategoryStats\<close>, on the events of the same day, attributes 1800 seconds.
\<close>

theorem getAppUsageForDate_gap_not_capped:
  "getAppUsageForDate 1 capped_gap_day =
     [\<lparr>usage_app_name = ''VSCode'', duration_seconds = 2100, event_count = 1\<rparr>,
      \<lparr>usage_app_name = ''Chrome'', duration_seconds = 300, event_count = 2\<rparr>] \<and>
   CategoryStats (day_window_events (getDayData 1 capped_gap_day)) =
     Sorted [(''VSCode'', 1800), (''Chrome'', 300)]"
  using capped_gap_day_usage capped_gap_day_chart by (rule conjI)

lemma locked_screen_day_events:
  "day_window_events (getDayData 1 locked_screen_day) =
    [\<lparr>timestamp = 32400000, app_name = ''__LOCKEDSCREEN'', window_title = None,
      browser_url = None\<rparr>,
     \<lparr>timestamp = 33000000, app_name = ''Chrome'', window_title = None, browser_url = None\<rparr>]"
  by (simp add: getDayData_def truthy_or_null_def locked_screen_day_def empty_database_def
      focus_def)

lemma locked_screen_day_durations:
  "durations_loop (day_window_events (getDayData 1 locked_screen_day)) [] =
     [(''__LOCKEDSCREEN'', Number 600), (''Chrome'', Number 0)]"
proof -
  have 1: "add_duration ''__LOCKEDSCREEN'' 600 [] = [(''__LOCKEDSCREEN'', Number 600)]"
    by (simp add: add_duration_plain_new example_names)
  have 2: "add_duration ''Chrome'' 0 [(''__LOCKEDSCREEN'', Number 600)] =
             [(''__LOCKEDSCREEN'', Number 600), (''Chrome'', Number 0)]"
    by (simp add: add_duration_plain_new example_names)
  show ?thesis
    unfolding locked_screen_day_events by (simp add: 1 2)
qed

lemma locked_screen_day_chart:
  "CategoryStats (day_window_events (getDayData 1 locked_screen_day)) = Sorted [(''Chrome'', 0)]"
proof -
  have e: "day_window_events (getDayData 1 locked_screen_day) \<noteq> []"
    unfolding locked_screen_day_events by simp
  have o: "Object_entries [(''__LOCKEDSCREEN'', Number 600), (''Chrome'', Number 0)] =
             [(''__LOCKEDSCREEN'', Number 600), (''Chrome'', Number 0)]"
    by (simp add: Object_entries_def example_names)
  show ?thesis
    unfolding CategoryStats_def locked_screen_day_durations o using e by simp
qed

lemma locked_screen_day_usage:
  "getAppUsageForDate 1 locked_screen_day =
     [\<lparr>usage_app_name = ''__LOCKEDSCREEN'', duration_seconds = 600, event_count = 1\<rparr>,
      \<lparr>usage_app_name = ''Chrome'', duration_seconds = 0, event_count = 1\<rparr>]"
proof -
  have eds: "event_durations 1 locked_screen_day =
    [\<lparr>ed_app_name = ''__LOCKEDSCREEN'', ed_timestamp = 32400000,
      ed_next_timestamp = Some 33000000\<rparr>,
     \<lparr>ed_app_name = ''Chrome'', ed_timestamp = 33000000, ed_next_timestamp = None\<rparr>]"
    by (simp add: event_durations_def locked_screen_day_def empty_database_def focus_def)
  show ?thesis
    unfolding getAppUsageForDate_def eds
    by (simp add: first_occurrences_def row_duration_def)
qed

text \<open>
  Claim C3 says that the lock-screen sentinel is excluded from the per-application
  totals. For a day on which the screen is locked at 09:00 and Chrome is focused at
  09:10, \<^verbatim>\<open>getAppUsageForDate\<close> returns a row for the sentinel with 600 seconds;
  \<^verbatim>\<open>CategoryStats\<close>, on the events of the same day, leaves the sentinel out.
\<close>

theorem getAppUsageForDate_includes_locked_screen:
  "getAppUsageForDate 1 locked_screen_day =
     [\<lparr>usage_app_name = ''__LOCKEDSCREEN'', duration_seconds = 600, event_count = 1\<rparr>,
      \<lparr>usage_app_name = ''Chrome'', duration_seconds = 0, event_count = 1\<rparr>] \<and>
   CategoryStats (day_window_events (getDayData 1 locked_screen_day)) = Sorted [(''Chrome'', 0)]"
  using locked_screen_day_usage locked_screen_day_chart by (rule conjI)

lemma constructor_day_events:
  "day_window_events (getDayData 1 constructor_day) =
    [\<lparr>timestamp = 32400000, app_name = ''constructor'', window_title = None,
      browser_url = None\<rparr>]"
  by (simp add: getDayData_def truthy_or_null_def constructor_day_def empty_database_def
      focus_def)

lemma constructor_day_durations:
  "durations_loop (day_window_events (getDayData 1 constructor_day)) [] =
     [(''constructor'', Text ''constructor'' [0])]"
proof -
  have 1: "add_duration ''constructor'' 0 [] = [(''constructor'', Text ''constructor'' [0])]"
    by (simp add: add_duration_method_new example_names)
  show ?thesis
    unfolding constructor_day_events by (simp add: 1)
qed

lemma constructor_day_chart:
  "CategoryStats (day_window_events (getDayData 1 constructor_day)) =
     Unordered [(''constructor'', Text ''constructor'' [0])]"
proof -
  have e: "day_window_events (getDayData 1 constructor_day) \<noteq> []"
    unfolding constructor_day_events by simp
  have o: "Object_entries [(''constructor'', Text ''constructor'' [0])] =
             [(''constructor'', Text ''constructor'' [0])]"
    by (simp add: Object_entries_def example_names)
  show ?thesis
    unfolding CategoryStats_def constructor_day_durations o using e by simp
qed

lemma constructor_day_usage:
  "getAppUsageForDate 1 constructor_day =
     [\<lparr>usage_app_name = ''constructor'', duration_seconds = 0, event_count = 1\<rparr>]"
proof -
  have "filter (\<lambda>r. w_logical_date r = 1) (window_events constructor_day) =
          [focus 32400000 ''constructor'' 1]"
    by (simp add: constructor_day_def empty_database_def focus_def)
  then have "getAppUsageForDate 1 constructor_day =
     [\<lparr>usage_app_name = w_app_name (focus 32400000 ''constructor'' 1), duration_seconds = 0,
       event_count = 1\<rparr>]"
    by (rule getAppUsageForDate_single)
  then show ?thesis
    by (simp add: focus_def)
qed

text \<open>
  Claim C5 says that the final event of a day is attributed zero duration, so that a day
  with a single event yields an all-zero result. \<^verbatim>\<open>getAppUsageForDate\<close> does so for every
  day. \<^verbatim>\<open>CategoryStats\<close> does so for application names that \<^verbatim>\<open>Object.prototype\<close> does not
  define; for a day whose single event belongs to an application named
  \<^verbatim>\<open>constructor\<close>, the total it stores is not 0 but a text: the string conversion of
  the inherited \<^verbatim>\<open>constructor\<close> property followed by \<^verbatim>\<open>0\<close>.
\<close>

theorem CategoryStats_inherited_method_name:
  "CategoryStats (day_window_events (getDayData 1 constructor_day)) =
     Unordered [(''constructor'', Text ''constructor'' [0])] \<and>
   getAppUsageForDate 1 constructor_day =
     [\<lparr>usage_app_name = ''constructor'', duration_seconds = 0, event_count = 1\<rparr>]"
  using constructor_day_chart constructor_day_usage by (rule conjI)

section \<open>Properties of the write path\<close>

lemma addNote_read_only: "addNote drv ts c ld db = Inl ReadOnlyError"
  by (simp add: addNote_def getConnection_def run_write_def)

lemma saveBlog_read_only: "saveBlog drv ld c db = Inl ReadOnlyError"
  by (simp add: saveBlog_def getConnection_def run_write_def)

lemma post_note_never_writes: "snd (post_note drv request db) = db"
  by (simp add: post_note_def Let_def addNote_read_only split: option.splits)

lemma put_blog_never_writes: "snd (put_blog drv logicalDate request db) = db"
  by (simp add: put_blog_def Let_def saveBlog_read_only split: option.splits)

lemma property_absent:
  "k \<notin> fst ` set members \<Longrightarrow> property (JObject members) k = JUndefined"
proof -
  assume "k \<notin> fst ` set members"
  then have "map_of (rev members) k = None"
    by (simp add: map_of_eq_None_iff)
  then show ?thesis by simp
qed

lemma post_note_falsy_field_rejected:
  assumes "body \<noteq> JNull" and "body \<noteq> JUndefined"
    and "falsy (property body ''timestamp'') \<or> falsy (property body ''content'')
           \<or> falsy (property body ''logical_date'')"
  shows "post_note drv (Some body) db =
           (error_response 400 ''timestamp, content, and logical_date are required'', db)"
  using assms by (simp add: post_note_def Let_def)

lemma put_blog_validation:
  assumes "body \<noteq> JNull" and "body \<noteq> JUndefined"
  shows "put_blog drv logicalDate (Some body) db =
           (if property body ''content'' = JUndefined
            then (error_response 400 ''content is required'', db)
            else (error_response 500 ''Failed to save blog'', db))"
  using assms by (simp add: put_blog_def Let_def saveBlog_read_only)

lemma insert_note_fresh:
  assumes "t \<notin> n_timestamp ` set rows"
  shows "filter (\<lambda>r. n_timestamp r = t) (insert_note t c d rows) =
           [\<lparr>n_timestamp = t, n_content = c, n_logical_date = d\<rparr>]"
proof -
  have "filter (\<lambda>r. n_timestamp r = t) rows = []"
    using assms by (auto simp: filter_empty_conv)
  then show ?thesis using assms by (simp add: insert_note_def)
qed

lemma insert_note_conflict:
  assumes "filter (\<lambda>r. n_timestamp r = t) rows = [r0]"
  shows "filter (\<lambda>r. n_timestamp r = t) (insert_note t c d rows) = [r0\<lparr>n_content := c\<rparr>]"
proof -
  have "r0 \<in> set (filter (\<lambda>r. n_timestamp r = t) rows)"
    using assms by simp
  then have m: "t \<in> n_timestamp ` set rows"
    by auto
  have "filter (\<lambda>r. n_timestamp r = t) (map (\<lambda>r. if n_timestamp r = t then r\<lparr>n_content := c\<rparr> else r) rows)
        = map (\<lambda>r. r\<lparr>n_content := c\<rparr>) (filter (\<lambda>r. n_timestamp r = t) rows)"
    by (induction rows) simp_all
  with m assms show ?thesis
    by (simp add: insert_note_def)
qed

lemma addNote_withWriteConnection_eq:
  assumes "cast_timestamp drv ts = Bound t" and "bind_varchar drv c = Bound s"
    and "cast_date drv ld = Bound d"
  shows "addNote_withWriteConnection drv ts c ld db =
           Inr (db\<lparr>notes_table := insert_note t s d (notes_table db)\<rparr>)"
  using assms
  by (simp add: addNote_withWriteConnection_def withWriteConnection_def run_write_def
      insert_note_statement_def)

lemma addNote_withWriteConnection_round_trip:
  assumes "cast_timestamp drv ts = Bound t" and "bind_varchar drv c = Bound s"
    and "cast_date drv ld = Bound d"
    and "t \<notin> n_timestamp ` set (notes_table db)"
  shows "\<exists>db'. addNote_withWriteConnection drv ts c ld db = Inr db' \<and>
           \<lparr>note_timestamp = t, content = s\<rparr> \<in> set (day_notes (getDayData d db'))"
proof -
  let ?db' = "db\<lparr>notes_table := insert_note t s d (notes_table db)\<rparr>"
  have "\<lparr>n_timestamp = t, n_content = s, n_logical_date = d\<rparr> \<in> set (notes_table ?db')"
    using assms(4) by (simp add: insert_note_def)
  then have "\<lparr>note_timestamp = t, content = s\<rparr> \<in> set (day_notes (getDayData d ?db'))"
    by (force simp: getDayData_def)
  with addNote_withWriteConnection_eq [OF assms(1-3)] show ?thesis
    by blast
qed

lemma addNote_withWriteConnection_conflict:
  assumes "cast_timestamp drv ts = Bound t"
    and "bind_varchar drv c1 = Bound s1" and "cast_date drv ld1 = Bound d1"
    and "bind_varchar drv c2 = Bound s2" and "cast_date drv ld2 = Bound d2"
    and "t \<notin> n_timestamp ` set (notes_table db)"
  shows "\<exists>db1 db2.
           addNote_withWriteConnection drv ts c1 ld1 db = Inr db1 \<and>
           addNote_withWriteConnection drv ts c2 ld2 db1 = Inr db2 \<and>
           filter (\<lambda>r. n_timestamp r = t) (notes_table db2) =
             [\<lparr>n_timestamp = t, n_content = s2, n_logical_date = d1\<rparr>]"
proof -
  let ?db1 = "db\<lparr>notes_table := insert_note t s1 d1 (notes_table db)\<rparr>"
  let ?db2 = "?db1\<lparr>notes_table := insert_note t s2 d2 (notes_table ?db1)\<rparr>"
  have one: "addNote_withWriteConnection drv ts c1 ld1 db = Inr ?db1"
    by (rule addNote_withWriteConnection_eq [OF assms(1) assms(2) assms(3)])
  have two: "addNote_withWriteConnection drv ts c2 ld2 ?db1 = Inr ?db2"
    by (rule addNote_withWriteConnection_eq [OF assms(1) assms(4) assms(5)])
  have "filter (\<lambda>r. n_timestamp r = t) (notes_table ?db1) =
          [\<lparr>n_timestamp = t, n_content = s1, n_logical_date = d1\<rparr>]"
    using insert_note_fresh [OF assms(6)] by simp
  then have "filter (\<lambda>r. n_timestamp r = t) (notes_table ?db2) =
          [\<lparr>n_timestamp = t, n_content = s2, n_logical_date = d1\<rparr>]"
    using insert_note_conflict [of t "notes_table ?db1" _ s2 d2] by simp
  with one two show ?thesis by blast
qed

lemma insert_blog_keys:
  "map b_logical_date (map (\<lambda>r. if b_logical_date r = d then r\<lparr>b_content := c\<rparr> else r) rows)
     = map b_logical_date rows"
  by (induction rows) simp_all

lemma insert_blog_present: "d \<in> b_logical_date ` set (insert_blog d c rows)"
proof (cases "d \<in> b_logical_date ` set rows")
  case True
  let ?upd = "\<lambda>r. if b_logical_date r = d then r\<lparr>b_content := c\<rparr> else r"
  have eq: "insert_blog d c rows = map ?upd rows"
    unfolding insert_blog_def using True by (simp only: if_True)
  have "b_logical_date ` set (map ?upd rows) = set (map b_logical_date (map ?upd rows))"
    by (simp only: set_map)
  also have "\<dots> = set (map b_logical_date rows)"
    by (simp only: insert_blog_keys)
  also have "\<dots> = b_logical_date ` set rows"
    by (simp only: set_map)
  finally show ?thesis
    unfolding eq using True by (simp only:)
next
  case False
  then show ?thesis
    by (simp add: insert_blog_def)
qed

lemma insert_blog_content:
  assumes "r \<in> set (insert_blog d c rows)" and "b_logical_date r = d"
  shows "b_content r = c"
proof (cases "d \<in> b_logical_date ` set rows")
  case True
  with assms(1) obtain r0 where "r0 \<in> set rows"
      and r: "r = (if b_logical_date r0 = d then r0\<lparr>b_content := c\<rparr> else r0)"
    by (auto simp: insert_blog_def)
  show ?thesis
  proof (cases "b_logical_date r0 = d")
    case True
    with r show ?thesis by simp
  next
    case False
    with r assms(2) show ?thesis by simp
  qed
next
  case False
  with assms have "r = \<lparr>b_logical_date = d, b_content = c\<rparr>"
    by (auto simp: insert_blog_def)
  then show ?thesis by simp
qed

lemma saveBlog_withWriteConnection_eq:
  assumes "cast_date drv ld = Bound d" and "bind_varchar drv c = Bound s"
  shows "saveBlog_withWriteConnection drv ld c db =
           Inr (db\<lparr>daily_blog := insert_blog d (Some s) (daily_blog db)\<rparr>)"
  using assms
  by (simp add: saveBlog_withWriteConnection_def withWriteConnection_def run_write_def
      insert_blog_statement_def)

lemma saveBlog_withWriteConnection_empty_string:
  assumes "cast_date drv ld = Bound d" and "bind_varchar drv (JString []) = Bound []"
  shows "\<exists>db'. saveBlog_withWriteConnection drv ld (JString []) db = Inr db' \<and>
           d \<in> b_logical_date ` set (daily_blog db') \<and>
           (\<forall>r\<in>set (daily_blog db'). b_logical_date r = d \<longrightarrow> b_content r = Some [])"
proof -
  let ?db' = "db\<lparr>daily_blog := insert_blog d (Some []) (daily_blog db)\<rparr>"
  have "saveBlog_withWriteConnection drv ld (JString []) db = Inr ?db'"
    by (rule saveBlog_withWriteConnection_eq [OF assms])
  moreover have "d \<in> b_logical_date ` set (daily_blog ?db')"
    using insert_blog_present [of d "Some []" "daily_blog db"] by simp
  moreover have "\<forall>r\<in>set (daily_blog ?db'). b_logical_date r = d \<longrightarrow> b_content r = Some []"
    using insert_blog_content [of _ d "Some []" "daily_blog db"] by simp
  ultimately show ?thesis by blast
qed

section \<open>Notes and daily logs: the claims\<close>

text \<open>
  Claim C8, as amended: a note request whose body parses to a JSON value other than null
  and lacks the timestamp, the content or the logical date is answered with the
  validation error (status 400) and leaves the database as it was; a key that is absent
  reads as undefined, and a parsed body is never undefined itself. A request whose body
  is null or does not parse (an empty body included) is rejected too and leaves the
  database as it was, but it is answered with status 500, not with the validation error.
\<close>

theorem post_note_missing_field_rejected:
  "(body \<noteq> JNull \<and> body \<noteq> JUndefined \<and>
      (property body ''timestamp'' = JUndefined \<or> property body ''content'' = JUndefined
         \<or> property body ''logical_date'' = JUndefined) \<longrightarrow>
      post_note drv (Some body) db =
        (error_response 400 ''timestamp, content, and logical_date are required'', db)) \<and>
   post_note drv (Some JNull) db = (error_response 500 ''Failed to add note'', db) \<and>
   post_note drv None db = (error_response 500 ''Failed to add note'', db)"
proof -
  have missing: "post_note drv (Some body) db =
        (error_response 400 ''timestamp, content, and logical_date are required'', db)"
    if a: "body \<noteq> JNull" and b: "body \<noteq> JUndefined"
      and c: "property body ''timestamp'' = JUndefined \<or> property body ''content'' = JUndefined
         \<or> property body ''logical_date'' = JUndefined"
  proof (rule post_note_falsy_field_rejected [OF a b])
    from c
    show "falsy (property body ''timestamp'') \<or> falsy (property body ''content'')
           \<or> falsy (property body ''logical_date'')"
      by auto
  qed
  have null: "post_note drv (Some JNull) db = (error_response 500 ''Failed to add note'', db)"
    by (simp add: post_note_def)
  have unparsable: "post_note drv None db = (error_response 500 ''Failed to add note'', db)"
    by (simp add: post_note_def)
  from missing null unparsable show ?thesis
    by blast
qed

text \<open>
  A body that is null has none of the three fields, and so has a body that does not
  parse; the answer to both is status 500 with the message of a failed write, which is
  not the validation error.
\<close>

theorem post_note_null_body_not_validation_error:
  "post_note example_driver (Some JNull) empty_database =
     (Response 500 (JObject [(''error'', JString ''Failed to add note'')]), empty_database) \<and>
   post_note example_driver None empty_database =
     (Response 500 (JObject [(''error'', JString ''Failed to add note'')]), empty_database) \<and>
   Response 500 (JObject [(''error'', JString ''Failed to add note'')]) \<noteq>
     error_response 400 ''timestamp, content, and logical_date are required''"
  by (simp add: post_note_def error_response_def)

theorem post_note_missing_field_rejected_witness:
  "JObject [(''timestamp'', JString ''2024-01-15T12:30:00.000Z''),
            (''logical_date'', JString ''2024-01-15'')] \<noteq> JNull \<and>
   property (JObject [(''timestamp'', JString ''2024-01-15T12:30:00.000Z''),
                      (''logical_date'', JString ''2024-01-15'')]) ''content'' = JUndefined \<and>
   post_note example_driver
     (Some (JObject [(''timestamp'', JString ''2024-01-15T12:30:00.000Z''),
                     (''logical_date'', JString ''2024-01-15'')])) blog_database =
     (Response 400
        (JObject [(''error'', JString ''timestamp, content, and logical_date are required'')]),
      blog_database) \<and>
   post_note example_driver (Some JNull) blog_database =
     (Response 500 (JObject [(''error'', JString ''Failed to add note'')]), blog_database)"
proof -
  let ?body = "JObject [(''timestamp'', JString ''2024-01-15T12:30:00.000Z''),
                        (''logical_date'', JString ''2024-01-15'')]"
  note inst = post_note_missing_field_rejected [of ?body example_driver blog_database]
  have a: "?body \<noteq> JNull" and b: "?body \<noteq> JUndefined"
    by simp_all
  have c: "property ?body ''content'' = JUndefined"
    by simp
  from inst a b c have "post_note example_driver (Some ?body) blog_database =
        (error_response 400 ''timestamp, content, and logical_date are required'', blog_database)"
    by blast
  then have d: "post_note example_driver (Some ?body) blog_database =
     (Response 400
        (JObject [(''error'', JString ''timestamp, content, and logical_date are required'')]),
      blog_database)"
    by (simp add: error_response_def)
  from inst have "post_note example_driver (Some JNull) blog_database =
        (error_response 500 ''Failed to add note'', blog_database)"
    by blast
  then have e: "post_note example_driver (Some JNull) blog_database =
     (Response 500 (JObject [(''error'', JString ''Failed to add note'')]), blog_database)"
    by (simp add: error_response_def)
  from a c d e show ?thesis
    by blast
qed

text \<open>
  Claim C7 says that a note added at a free timestamp shows up in the data of its day.
  \<^verbatim>\<open>addNote\<close> runs its INSERT on the read-only connection of \<^verbatim>\<open>getConnection\<close>: on the
  empty database the call fails, the route answers 500 and the day has no notes. The
  copy of the function that uses \<^verbatim>\<open>withWriteConnection\<close> stores the note.
\<close>

theorem addNote_read_only_round_trip:
  "addNote example_driver (JString ''2024-01-15T12:30:00.000Z'') (JString ''lunch'')
     (JString ''2024-01-15'') empty_database = Inl ReadOnlyError \<and>
   post_note example_driver (Some (note_request ''lunch'' ''2024-01-15'')) empty_database =
     (Response 500 (JObject [(''error'', JString ''Failed to add note'')]), empty_database) \<and>
   day_notes (getDayData 19737 empty_database) = [] \<and>
   (\<exists>db'. addNote_withWriteConnection example_driver (JString ''2024-01-15T12:30:00.000Z'')
            (JString ''lunch'') (JString ''2024-01-15'') empty_database = Inr db' \<and>
          day_notes (getDayData 19737 db') =
            [\<lparr>note_timestamp = 1705321800000, content = ''lunch''\<rparr>])"
  by (simp add: addNote_read_only post_note_def note_request_def error_response_def
      getDayData_def empty_database_def addNote_withWriteConnection_def
      withWriteConnection_def run_write_def insert_note_statement_def insert_note_def
      example_driver_def)

text \<open>
  Claim C9 says that two writes at one timestamp leave one note with the second content
  and the first logical date. Through \<^verbatim>\<open>getConnection\<close> both writes fail and no note
  exists at the timestamp afterwards. With \<^verbatim>\<open>withWriteConnection\<close> the two writes leave
  the single row that the claim describes.
\<close>

theorem addNote_read_only_conflict:
  "post_note example_driver (Some (note_request ''first'' ''2024-01-15'')) empty_database =
     (Response 500 (JObject [(''error'', JString ''Failed to add note'')]), empty_database) \<and>
   post_note example_driver (Some (note_request ''second'' ''2024-01-16'')) empty_database =
     (Response 500 (JObject [(''error'', JString ''Failed to add note'')]), empty_database) \<and>
   filter (\<lambda>r. n_timestamp r = 1705321800000) (notes_table empty_database) = [] \<and>
   (\<exists>db1 db2.
      addNote_withWriteConnection example_driver (JString ''2024-01-15T12:30:00.000Z'')
        (JString ''first'') (JString ''2024-01-15'') empty_database = Inr db1 \<and>
      addNote_withWriteConnection example_driver (JString ''2024-01-15T12:30:00.000Z'')
        (JString ''second'') (JString ''2024-01-16'') db1 = Inr db2 \<and>
      notes_table db2 =
        [\<lparr>n_timestamp = 1705321800000, n_content = ''second'', n_logical_date = 19737\<rparr>])"
  by (simp add: addNote_read_only post_note_def note_request_def error_response_def
      empty_database_def addNote_withWriteConnection_def
      withWriteConnection_def run_write_def insert_note_statement_def insert_note_def
      example_driver_def)

text \<open>
  Claim C10 says that saving the empty string as a daily log succeeds and overwrites the
  stored log, while a note with empty content is rejected as invalid. The validation
  does differ as claimed: the blog route rejects only an absent content, the note route
  rejects the empty string. But \<^verbatim>\<open>saveBlog\<close> runs its INSERT on the read-only
  connection: the route answers 500 and the stored log stays. With
  \<^verbatim>\<open>withWriteConnection\<close> the empty string replaces it.
\<close>

theorem put_blog_empty_string_read_only:
  "put_blog example_driver ''2024-01-15'' (Some (JObject [(''content'', JString '''')]))
     blog_database =
     (Response 500 (JObject [(''error'', JString ''Failed to save blog'')]), blog_database) \<and>
   daily_blog blog_database = [\<lparr>b_logical_date = 19737, b_content = Some ''old log''\<rparr>] \<and>
   put_blog example_driver ''2024-01-15'' (Some (JObject [])) blog_database =
     (Response 400 (JObject [(''error'', JString ''content is required'')]), blog_database) \<and>
   post_note example_driver (Some (note_request '''' ''2024-01-15'')) blog_database =
     (Response 400
        (JObject [(''error'', JString ''timestamp, content, and logical_date are required'')]),
      blog_database) \<and>
   (\<exists>db'. saveBlog_withWriteConnection example_driver (JString ''2024-01-15'') (JString '''')
            blog_database = Inr db' \<and>
          daily_blog db' = [\<lparr>b_logical_date = 19737, b_content = Some ''''\<rparr>])"
  by (simp add: saveBlog_read_only put_blog_def post_note_def note_request_def
      error_response_def blog_database_def empty_database_def
      saveBlog_withWriteConnection_def withWriteConnection_def run_write_def
      insert_blog_statement_def insert_blog_def example_driver_def)

section \<open>Properties of the classifier\<close>

lemma find_Some_set: "find P xs = Some z \<Longrightarrow> z \<in> set xs \<and> P z"
  by (induction xs) (auto split: if_splits)

lemma find_insort_key:
  fixes f :: "'a \<Rightarrow> 'b::linorder"
  assumes "sorted (map f ys)"
  shows "find P (insort_key f x ys) =
           (case find P ys of
              None \<Rightarrow> if P x then Some x else None
            | Some y \<Rightarrow> if P x \<and> f x \<le> f y then Some x else Some y)"
  using assms
proof (induction ys)
  case Nil
  then show ?case by simp
next
  case (Cons y ys)
  show ?case
  proof (cases "f x \<le> f y")
    case True
    have "f x \<le> f z" if "find P (y # ys) = Some z" for z
    proof -
      from that have "z \<in> set (y # ys)"
        by (rule find_Some_set [THEN conjunct1])
      with Cons.prems have "f y \<le> f z" by auto
      with True show ?thesis by simp
    qed
    then show ?thesis
      using True by (auto split: option.splits)
  next
    case False
    from Cons.prems have "sorted (map f ys)" by simp
    then show ?thesis
      using False Cons.IH by (auto split: option.splits)
  qed
qed

lemma find_sort_key_split:
  fixes f :: "'a \<Rightarrow> 'b::linorder"
  shows "(case find P (sort_key f xs) of
      None \<Rightarrow> \<forall>x\<in>set xs. \<not> P x
    | Some y \<Rightarrow> P y \<and> (\<exists>pre post. xs = pre @ y # post \<and>
                 (\<forall>x\<in>set pre. P x \<longrightarrow> f y < f x) \<and>
                 (\<forall>x\<in>set post. P x \<longrightarrow> f y \<le> f x)))"
proof (induction xs)
  case Nil
  show ?case by simp
next
  case (Cons x xs)
  have step: "find P (sort_key f (x # xs)) =
           (case find P (sort_key f xs) of
              None \<Rightarrow> if P x then Some x else None
            | Some y \<Rightarrow> if P x \<and> f x \<le> f y then Some x else Some y)"
    using find_insort_key [where f = f and ys = "sort_key f xs" and P = P and x = x] by simp
  show ?case
  proof (cases "find P (sort_key f xs)")
    case None
    with Cons.IH have none: "\<forall>z\<in>set xs. \<not> P z" by simp
    show ?thesis
    proof (cases "P x")
      case True
      have "x # xs = [] @ x # xs \<and> (\<forall>z\<in>set []. P z \<longrightarrow> f x < f z) \<and>
              (\<forall>z\<in>set xs. P z \<longrightarrow> f x \<le> f z)"
        using none by simp
      then have "\<exists>pre post. x # xs = pre @ x # post \<and> (\<forall>z\<in>set pre. P z \<longrightarrow> f x < f z) \<and>
              (\<forall>z\<in>set post. P z \<longrightarrow> f x \<le> f z)"
        by blast
      with True None step show ?thesis by simp
    next
      case False
      with None step none show ?thesis by simp
    qed
  next
    case (Some y)
    with Cons.IH obtain pre post where Py: "P y" and xs: "xs = pre @ y # post"
      and pre: "\<forall>z\<in>set pre. P z \<longrightarrow> f y < f z"
      and post: "\<forall>z\<in>set post. P z \<longrightarrow> f y \<le> f z"
      by auto
    show ?thesis
    proof (cases "P x \<and> f x \<le> f y")
      case True
      have "\<forall>z\<in>set xs. P z \<longrightarrow> f x \<le> f z"
      proof (intro ballI impI)
        fix z assume "z \<in> set xs" and "P z"
        then have "f y \<le> f z"
          using xs pre post by auto
        with True show "f x \<le> f z" by (meson order_trans)
      qed
      then have "x # xs = [] @ x # xs \<and> (\<forall>z\<in>set []. P z \<longrightarrow> f x < f z) \<and>
              (\<forall>z\<in>set xs. P z \<longrightarrow> f x \<le> f z)"
        by simp
      then have "\<exists>pre post. x # xs = pre @ x # post \<and> (\<forall>z\<in>set pre. P z \<longrightarrow> f x < f z) \<and>
              (\<forall>z\<in>set post. P z \<longrightarrow> f x \<le> f z)"
        by blast
      with True Some step show ?thesis by simp
    next
      case False
      then have "P x \<longrightarrow> f y < f x" by auto
      with pre have "\<forall>z\<in>set (x # pre). P z \<longrightarrow> f y < f z" by simp
      moreover have "x # xs = (x # pre) @ y # post" using xs by simp
      ultimately have ex: "\<exists>pre post. x # xs = pre @ y # post \<and> (\<forall>z\<in>set pre. P z \<longrightarrow> f y < f z) \<and>
              (\<forall>z\<in>set post. P z \<longrightarrow> f y \<le> f z)"
        using post by blast
      have res: "find P (sort_key f (x # xs)) = Some y"
        unfolding step Some using False by auto
      show ?thesis
        unfolding res using Py ex by simp
    qed
  qed
qed

text \<open>
  Claim C6: the classifier returns the category of the first matching rule in priority
  order, declaration order breaking ties: the rule list splits around a matching rule
  \<open>r\<close> such that every matching rule declared before \<open>r\<close> has a strictly lower
  priority and every matching rule declared after \<open>r\<close> has no higher priority, and
  the result is the category of \<open>r\<close>. When no rule matches, the result is the raw
  application name, so every subject gets a category.
\<close>

theorem classify_first_match_in_priority_order:
  "(\<exists>pre r post.
      rules = pre @ r # post \<and> rule_matches m subj r \<and>
      (\<forall>x\<in>set pre. rule_matches m subj x \<longrightarrow> priority x < priority r) \<and>
      (\<forall>x\<in>set post. rule_matches m subj x \<longrightarrow> priority x \<le> priority r) \<and>
      classify m subj rules = category r) \<or>
   ((\<forall>r\<in>set rules. \<not> rule_matches m subj r) \<and>
      classify m subj rules = subject_app_name subj)"
proof (cases "find (rule_matches m subj) (priority_order rules)")
  case None
  with find_sort_key_split [where P = "rule_matches m subj" and f = "\<lambda>r. - priority r" and xs = rules]
  have "\<forall>r\<in>set rules. \<not> rule_matches m subj r"
    by (simp add: priority_order_def)
  moreover from None have "classify m subj rules = subject_app_name subj"
    by (simp add: classify_def)
  ultimately show ?thesis by blast
next
  case (Some r)
  with find_sort_key_split [where P = "rule_matches m subj" and f = "\<lambda>r. - priority r" and xs = rules]
  obtain pre post where "rule_matches m subj r" and "rules = pre @ r # post"
    and "\<forall>x\<in>set pre. rule_matches m subj x \<longrightarrow> priority x < priority r"
    and "\<forall>x\<in>set post. rule_matches m subj x \<longrightarrow> priority x \<le> priority r"
    by (auto simp: priority_order_def)
  moreover from Some have "classify m subj rules = category r"
    by (simp add: classify_def)
  ultimately show ?thesis by blast
qed

theorem classify_first_match_in_priority_order_witness:
  "classify prefix_matcher \<lparr>subject_app_name = ''VSCode'', subject_text = ''VSCode - main.py''\<rparr>
     [\<lparr>pattern = ''Chrome'', category = ''Browser'', priority = 1\<rparr>,
      \<lparr>pattern = ''VSCode'', category = ''Coding'', priority = 2\<rparr>] = ''Coding'' \<and>
   (\<exists>pre r post.
      [\<lparr>pattern = ''Chrome'', category = ''Browser'', priority = 1\<rparr>,
       \<lparr>pattern = ''VSCode'', category = ''Coding'', priority = 2\<rparr>] = pre @ r # post \<and>
      rule_matches prefix_matcher
        \<lparr>subject_app_name = ''VSCode'', subject_text = ''VSCode - main.py''\<rparr> r \<and>
      category r = ''Coding'') \<and>
   classify prefix_matcher \<lparr>subject_app_name = ''Terminal'', subject_text = ''Terminal - zsh''\<rparr>
     [\<lparr>pattern = ''Chrome'', category = ''Browser'', priority = 1\<rparr>,
      \<lparr>pattern = ''VSCode'', category = ''Coding'', priority = 2\<rparr>] = ''Terminal''"
proof -
  let ?rules = "[\<lparr>pattern = ''Chrome'', category = ''Browser'', priority = 1\<rparr>,
                 \<lparr>pattern = ''VSCode'', category = ''Coding'', priority = 2\<rparr>]"
  let ?vscode = "\<lparr>subject_app_name = ''VSCode'', subject_text = ''VSCode - main.py''\<rparr>"
  let ?terminal = "\<lparr>subject_app_name = ''Terminal'', subject_text = ''Terminal - zsh''\<rparr>"
  have coding: "classify prefix_matcher ?vscode ?rules = ''Coding''"
    by (simp add: classify_def priority_order_def rule_matches_def prefix_matcher_def)
  have some: "\<not> (\<forall>r\<in>set ?rules. \<not> rule_matches prefix_matcher ?vscode r)"
    by (simp add: rule_matches_def prefix_matcher_def)
  have none: "\<forall>r\<in>set ?rules. \<not> rule_matches prefix_matcher ?terminal r"
    by (simp add: rule_matches_def prefix_matcher_def)
  from classify_first_match_in_priority_order [of ?rules prefix_matcher ?vscode] some
  obtain pre r post where "?rules = pre @ r # post"
    and "rule_matches prefix_matcher ?vscode r"
    and "classify prefix_matcher ?vscode ?rules = category r"
    by blast
  with coding have split: "\<exists>pre r post. ?rules = pre @ r # post \<and>
      rule_matches prefix_matcher ?vscode r \<and> category r = ''Coding''"
    by auto
  have "\<not> (\<exists>pre r post. ?rules = pre @ r # post \<and> rule_matches prefix_matcher ?terminal r)"
    using none by (auto simp: Cons_eq_append_conv)
  with classify_first_match_in_priority_order [of ?rules prefix_matcher ?terminal]
  have fallback: "classify prefix_matcher ?terminal ?rules = ''Terminal''"
    by auto
  from coding split fallback show ?thesis by blast
qed

end
